theory Spec2Isabelle
  imports Complex_Main "HOL-Library.AList"
begin

section \<open>Narrative metrics engine: the model\<close>

text \<open>
  The development embeds the metrics engine of the repository:
  \<^item> from \<open>backend/backend.py\<close>, \<open>_percent_rank\<close> and the endpoint \<open>narrative_metrics\<close>
    (its request validation, its SQL query and the Python loops behind it);
  \<^item> from \<open>utils.py\<close>, \<open>calculate_horizon_moves\<close> and \<open>detect_alerts\<close>.

  Conventions. A calendar date is its proleptic Gregorian ordinal, an \<open>int\<close>: 0001-01-01
  is day 1, and a \<open>timedelta(days=k)\<close> is the integer \<open>k\<close>. The date and duration types
  are finite, and arithmetic that leaves their range raises; the model has these failures.
  Python and SQL floating point and numeric values are real numbers, so rounding,
  infinities and NaN are not modelled. A value that may be \<open>None\<close> or SQL \<open>NULL\<close> has an
  option type. Every exception is an \<open>Inl\<close> result.
\<close>

type_synonym day = int

datatype error =
    RequestValidationError
  | HTTPException nat string
  | KeyError string
  | IndexError
  | DateParseError
  | OverflowError
  | OutOfBoundsDatetime

subsection \<open>\<open>_percent_rank\<close>\<close>

text \<open>
  \<^verbatim>\<open>
  n = len(window_values)
  if n <= 1: return 0.0
  less = sum(1 for v in window_values if v < x)
  rank = 1 + less
  return (rank - 1) / (n - 1)
  \<close>
\<close>

definition percent_rank :: "real list \<Rightarrow> real \<Rightarrow> real" where
  "percent_rank window_values x =
     (let n = int (length window_values) in
      if n \<le> 1 then 0
      else
        (let less = int (length (filter (\<lambda>v. v < x) window_values));
             rank = 1 + less
         in real_of_int (rank - 1) / real_of_int (n - 1)))"

subsection \<open>The SQL query of \<open>narrative_metrics\<close>\<close>

text \<open>
  A row of the table \<open>articles\<close>. The query reads \<open>published_at\<close> only through the cast
  \<open>published_at::date\<close>, so the field holds that day.
\<close>

record article =
  article_id :: nat
  primary_label_v2 :: "string option"
  published_at :: day
  sentiment_score :: "real option"

text \<open>
  CTE \<open>daily_items\<close>: the distinct triples \<open>(id, published_at::date, sentiment_score)\<close> of
  the articles of the narrative between \<open>$2\<close> and \<open>$3\<close>.
\<close>

definition daily_items :: "article list \<Rightarrow> string \<Rightarrow> day \<Rightarrow> day \<Rightarrow> (nat \<times> day \<times> real option) list" where
  "daily_items articles narrative lo hi =
     remdups (map (\<lambda>a. (article_id a, published_at a, sentiment_score a))
       (filter (\<lambda>a. primary_label_v2 a = Some narrative \<and> lo \<le> published_at a \<and> published_at a \<le> hi)
          articles))"

text \<open>SQL \<open>AVG\<close>: the mean of the non-null inputs, \<open>NULL\<close> when there is none.\<close>

definition sql_avg :: "real option list \<Rightarrow> real option" where
  "sql_avg vs =
     (let xs = List.map_filter (\<lambda>v. v) vs in
      if xs = [] then None else Some (sum_list xs / real (length xs)))"

text \<open>
  SQL \<open>STDDEV_SAMP\<close> as Postgres computes it from the running sums \<open>N\<close>, \<open>sum(X)\<close> and
  \<open>sum(X*X)\<close>: \<open>NULL\<close> for fewer than two inputs, otherwise the square root of
  \<open>(N * sum(X*X) - sum(X)^2) / (N * (N - 1))\<close>, with a non-positive numerator giving 0.
\<close>

definition sql_stddev_samp :: "real list \<Rightarrow> real option" where
  "sql_stddev_samp xs =
     (let n = real (length xs);
          sumX = sum_list xs;
          sumX2 = sum_list (map (\<lambda>x. x * x) xs)
      in if length xs < 2 then None
         else if n * sumX2 - sumX * sumX \<le> 0 then Some 0
         else Some (sqrt ((n * sumX2 - sumX * sumX) / (n * (n - 1)))))"

text \<open>
  CTE \<open>daily_agg\<close>: one group per day that has an item, with \<open>COUNT(*)\<close> and
  \<open>AVG(sentiment_score)\<close>; a day without items has no group.
\<close>

definition daily_agg :: "(nat \<times> day \<times> real option) list \<Rightarrow> day \<Rightarrow> (int \<times> real option) option" where
  "daily_agg items d =
     (let grp = filter (\<lambda>(i, nd, s). nd = d) items in
      if grp = [] then None
      else Some (int (length grp), sql_avg (map (\<lambda>(i, nd, s). s) grp)))"

text \<open>
  CTE \<open>daily_series\<close>: the calendar \<open>generate_series($2, $3, '1 day')\<close> left-joined with
  \<open>daily_agg\<close>, \<open>COALESCE(a.article_count, 0)\<close> for a day without group.
\<close>

record series_row =
  s_date :: day
  s_count :: int
  s_sentiment :: "real option"

definition daily_series :: "(nat \<times> day \<times> real option) list \<Rightarrow> day \<Rightarrow> day \<Rightarrow> series_row list" where
  "daily_series items lo hi =
     map (\<lambda>d. case daily_agg items d of
                 None \<Rightarrow> \<lparr>s_date = d, s_count = 0, s_sentiment = None\<rparr>
               | Some (c, s) \<Rightarrow> \<lparr>s_date = d, s_count = c, s_sentiment = s\<rparr>)
         [lo..hi]"

text \<open>
  The window frame \<open>ROWS BETWEEN win PRECEDING AND 1 PRECEDING\<close> of the row at position
  \<open>i\<close> (from 0) of the series ordered by date: the rows at positions \<open>i - win\<close> to \<open>i - 1\<close>
  that exist.
\<close>

definition preceding_frame :: "nat \<Rightarrow> 'a list \<Rightarrow> nat \<Rightarrow> 'a list" where
  "preceding_frame win xs i = drop (i - win) (take i xs)"

text \<open>The final \<open>SELECT\<close> over the CTE \<open>rolling_stats\<close>, ordered by date.\<close>

record sql_row =
  r_date :: day
  r_count :: int
  r_rolling_mean :: "real option"
  r_rolling_std :: "real option"
  r_intensity :: "real option"
  r_sentiment :: "real option"

definition coalesce :: "'a option \<Rightarrow> 'a \<Rightarrow> 'a" where
  "coalesce v d = (case v of None \<Rightarrow> d | Some x \<Rightarrow> x)"

definition rolling_row :: "nat \<Rightarrow> real \<Rightarrow> series_row list \<Rightarrow> nat \<Rightarrow> sql_row" where
  "rolling_row win eps series i =
     (let frame = map (\<lambda>r. real_of_int (s_count r)) (preceding_frame win series i);
          baseline_n = length frame;
          rolling_mean = sql_avg (map Some frame);
          rolling_std = sql_stddev_samp frame;
          cur = series ! i
      in \<lparr>r_date = s_date cur,
          r_count = s_count cur,
          r_rolling_mean = rolling_mean,
          r_rolling_std = rolling_std,
          r_intensity =
            (if baseline_n = 0 then Some 0
             else Some ((real_of_int (s_count cur) - coalesce rolling_mean 0)
                        / max (coalesce rolling_std 0) eps)),
          r_sentiment = s_sentiment cur\<rparr>)"

definition metrics_query :: "article list \<Rightarrow> nat \<Rightarrow> string \<Rightarrow> day \<Rightarrow> day \<Rightarrow> real \<Rightarrow> sql_row list" where
  "metrics_query articles win narrative calc_start end_date eps =
     (let series = daily_series (daily_items articles narrative calc_start end_date) calc_start end_date
      in map (rolling_row win eps series) [0..<length series])"

subsection \<open>The Python part of \<open>narrative_metrics\<close>\<close>

record metric =
  date :: day
  article_count :: int
  rolling_mean :: real
  rolling_std :: real
  intensity :: real
  sentiment_mean :: "real option"
  intensity_percentile :: real
  sentiment_percentile :: "real option"

text \<open>\<open>xs[a : b]\<close> for indices that are not negative.\<close>

definition py_slice :: "'a list \<Rightarrow> nat \<Rightarrow> nat \<Rightarrow> 'a list" where
  "py_slice xs a b = drop a (take b xs)"

text \<open>\<open>start_idx = max(0, i - pwin + 1)\<close>\<close>

definition start_idx :: "int \<Rightarrow> nat \<Rightarrow> nat" where
  "start_idx pwin i = nat (max 0 (int i - pwin + 1))"

text \<open>
  The loop \<open>for i in range(len(dates))\<close> that fills \<open>intensity_pcts\<close> and
  \<open>sentiment_pcts\<close>, one definition for each list.
\<close>

definition intensity_pct_at :: "int \<Rightarrow> real list \<Rightarrow> nat \<Rightarrow> real" where
  "intensity_pct_at pwin intensities i =
     (let w_int = py_slice intensities (start_idx pwin i) (i + 1)
      in percent_rank w_int (intensities ! i))"

definition sentiment_pct_at :: "int \<Rightarrow> real option list \<Rightarrow> nat \<Rightarrow> real option" where
  "sentiment_pct_at pwin sentiments i =
     (case sentiments ! i of
        None \<Rightarrow> None
      | Some s \<Rightarrow>
          (let w_sent = List.map_filter (\<lambda>v. v) (py_slice sentiments (start_idx pwin i) (i + 1))
           in Some (percent_rank w_sent s)))"

definition intensity_pcts :: "int \<Rightarrow> real list \<Rightarrow> real list" where
  "intensity_pcts pwin intensities = map (intensity_pct_at pwin intensities) [0..<length intensities]"

definition sentiment_pcts :: "int \<Rightarrow> real option list \<Rightarrow> real option list" where
  "sentiment_pcts pwin sentiments = map (sentiment_pct_at pwin sentiments) [0..<length sentiments]"

text \<open>
  The rows read into the six lists, the percentile loop, and the last loop, which keeps
  the days \<open>start_date <= d <= end_date\<close>.
\<close>

definition build_metrics :: "int \<Rightarrow> day \<Rightarrow> day \<Rightarrow> sql_row list \<Rightarrow> metric list" where
  "build_metrics pwin start_date end_date rows =
     (let dates = map r_date rows;
          counts = map r_count rows;
          rmean = map (\<lambda>r. coalesce (r_rolling_mean r) 0) rows;
          rstd = map (\<lambda>r. coalesce (r_rolling_std r) 0) rows;
          intensities = map (\<lambda>r. coalesce (r_intensity r) 0) rows;
          sentiments = map r_sentiment rows;
          ipcts = intensity_pcts pwin intensities;
          spcts = sentiment_pcts pwin sentiments
      in map (\<lambda>i. \<lparr>date = dates ! i,
                    article_count = counts ! i,
                    rolling_mean = rmean ! i,
                    rolling_std = rstd ! i,
                    intensity = intensities ! i,
                    sentiment_mean = sentiments ! i,
                    intensity_percentile = ipcts ! i,
                    sentiment_percentile = spcts ! i\<rparr>)
           (filter (\<lambda>i. start_date \<le> dates ! i \<and> dates ! i \<le> end_date) [0..<length dates]))"

text \<open>
  \<open>datetime.date\<close> holds the days from \<open>date.min\<close>, 0001-01-01, to \<open>date.max\<close>,
  9999-12-31; \<open>d - timedelta(days=k)\<close> raises \<open>OverflowError\<close> when the result is outside.
\<close>

definition date_min :: day where
  "date_min = 1"

definition date_max :: day where
  "date_max = 3652059"

definition date_sub :: "day \<Rightarrow> int \<Rightarrow> error + day" where
  "date_sub d k =
     (if date_min \<le> d - k \<and> d - k \<le> date_max then Inr (d - k) else Inl OverflowError)"

text \<open>
  The body of the endpoint. \<open>today\<close> is \<open>date.today()\<close> and \<open>articles\<close> the table the
  connection reads.
\<close>

definition narrative_metrics_body ::
  "article list \<Rightarrow> day \<Rightarrow> string \<Rightarrow> day option \<Rightarrow> day option \<Rightarrow> int \<Rightarrow> int \<Rightarrow> real
     \<Rightarrow> error + metric list" where
  "narrative_metrics_body articles today narrative start_date end_date window percentile_window epsilon =
     (let end_date = (case end_date of None \<Rightarrow> today | Some e \<Rightarrow> e)
      in case (case start_date of None \<Rightarrow> date_sub end_date 365 | Some s \<Rightarrow> Inr s) of
           Inl err \<Rightarrow> Inl err
         | Inr start_date \<Rightarrow>
             if start_date > end_date
             then Inl (HTTPException 400 ''start_date must be on or before end_date'')
             else
               (let win = max 1 (min window 365);
                    pwin = max 1 (min percentile_window 730);
                    eps = epsilon;
                    history_days = max win pwin
                in case date_sub start_date history_days of
                     Inl err \<Rightarrow> Inl err
                   | Inr calc_start \<Rightarrow>
                       (let rows = metrics_query articles (nat win) narrative calc_start end_date eps
                        in Inr (build_metrics pwin start_date end_date rows))))"

text \<open>
  The constraints of the signature, \<open>Query(60, ge=1, le=365)\<close>, \<open>Query(365, ge=1, le=730)\<close>
  and \<open>Query(0.25, gt=0.0, le=10.0)\<close>: the framework answers a request that breaks one with
  a validation error and does not call the body.
\<close>

definition query_valid :: "int \<Rightarrow> int \<Rightarrow> real \<Rightarrow> bool" where
  "query_valid window percentile_window epsilon \<longleftrightarrow>
     1 \<le> window \<and> window \<le> 365 \<and>
     1 \<le> percentile_window \<and> percentile_window \<le> 730 \<and>
     0 < epsilon \<and> epsilon \<le> 10"

definition narrative_metrics ::
  "article list \<Rightarrow> day \<Rightarrow> string \<Rightarrow> day option \<Rightarrow> day option \<Rightarrow> int \<Rightarrow> int \<Rightarrow> real
     \<Rightarrow> error + metric list" where
  "narrative_metrics articles today narrative start_date end_date window percentile_window epsilon =
     (if \<not> query_valid window percentile_window epsilon then Inl RequestValidationError
      else narrative_metrics_body articles today narrative start_date end_date
             window percentile_window epsilon)"

subsection \<open>\<open>utils.py\<close>: data frames\<close>

text \<open>
  The callers build \<open>metrics_df\<close> from the rows the endpoint returns, so its \<open>date\<close> column
  holds strings. A frame has the two columns the function reads, each of which may be
  missing (reading a missing column raises \<open>KeyError\<close>).
\<close>

datatype date_cell = DateStr string | Timestamp day

record data_frame =
  date_column :: "date_cell list option"
  intensity_column :: "real list option"

text \<open>
  Frames are objects: a variable holds a reference, an index into the store. \<open>df.copy()\<close>
  allocates a new object, and \<open>df['date'] = ...\<close> updates the object \<open>df\<close> refers to.
\<close>

type_synonym store = "data_frame list"

text \<open>
  What the function uses of pandas is library code and a parameter of the model:
  \<^item> \<open>pd.to_datetime\<close> of a string, which gives a timestamp or raises;
  \<^item> \<open>pd.to_datetime\<close> of a column, which gives the column of timestamps or raises (it
    reads the column as a whole, so it may refuse a column each of whose cells it would
    read alone);
  \<^item> whether \<open>Timestamp - timedelta\<close> stays in the range of the timestamp type; it raises
    when it does not.
  Timestamps are modelled by their day: the parsers stand for \<open>pd.to_datetime\<close> on values
  that denote calendar dates, as the \<open>date\<close> field of the endpoint does.
\<close>

record pandas =
  to_datetime_scalar :: "string \<Rightarrow> day option"
  to_datetime_series :: "date_cell list \<Rightarrow> day list option"
  timestamp_sub_ok :: "day \<Rightarrow> int \<Rightarrow> bool"

text \<open>
  \<open>timedelta(days=n)\<close> raises \<open>OverflowError\<close> unless \<open>-999999999 <= n <= 999999999\<close>.
\<close>

definition timedelta_days :: "int \<Rightarrow> error + int" where
  "timedelta_days n = (if \<bar>n\<bar> \<le> 999999999 then Inr n else Inl OverflowError)"

text \<open>The rows of a column that a boolean mask keeps.\<close>

definition select_mask :: "bool list \<Rightarrow> 'a list \<Rightarrow> 'a list" where
  "select_mask keep xs = map snd (filter fst (zip keep xs))"

text \<open>\<open>df[df['date'] == d]\<close>\<close>

definition select_rows :: "data_frame \<Rightarrow> day \<Rightarrow> error + data_frame" where
  "select_rows df d =
     (case date_column df of
        None \<Rightarrow> Inl (KeyError ''date'')
      | Some cells \<Rightarrow>
          (let keep = map (\<lambda>c. c = Timestamp d) cells
           in Inr \<lparr>date_column = Some (select_mask keep cells),
                   intensity_column = map_option (select_mask keep) (intensity_column df)\<rparr>))"

text \<open>\<open>df.empty\<close>: the frame has no row.\<close>

definition frame_empty :: "data_frame \<Rightarrow> bool" where
  "frame_empty df =
     (case date_column df of
        Some cells \<Rightarrow> cells = []
      | None \<Rightarrow> (case intensity_column df of Some xs \<Rightarrow> xs = [] | None \<Rightarrow> True))"

text \<open>\<open>df['intensity'].iloc[0]\<close>\<close>

definition first_intensity :: "data_frame \<Rightarrow> error + real" where
  "first_intensity df =
     (case intensity_column df of
        None \<Rightarrow> Inl (KeyError ''intensity'')
      | Some xs \<Rightarrow> (case xs of [] \<Rightarrow> Inl IndexError | x # _ \<Rightarrow> Inr x))"

subsection \<open>\<open>calculate_horizon_moves\<close>\<close>

text \<open>
  A dictionary is an association list in insertion order; \<open>moves[h] = v\<close> is
  \<^const>\<open>AList.update\<close>, which replaces the value of a key already there and appends a new
  key. The loop \<open>for horizon in horizons\<close>:
\<close>

fun horizon_loop ::
  "pandas \<Rightarrow> data_frame \<Rightarrow> day \<Rightarrow> real \<Rightarrow> int list \<Rightarrow> (int \<times> real option) list
     \<Rightarrow> error + (int \<times> real option) list" where
  "horizon_loop pd df target_dt target_intensity [] moves = Inr moves"
| "horizon_loop pd df target_dt target_intensity (horizon # rest) moves =
     (case timedelta_days horizon of
        Inl e \<Rightarrow> Inl e
      | Inr delta \<Rightarrow>
          if \<not> timestamp_sub_ok pd target_dt delta then Inl OutOfBoundsDatetime
          else
            (let horizon_date = target_dt - delta in
             case select_rows df horizon_date of
               Inl e \<Rightarrow> Inl e
             | Inr horizon_row \<Rightarrow>
                 if frame_empty horizon_row
                 then horizon_loop pd df target_dt target_intensity rest
                        (AList.update horizon None moves)
                 else
                   (case first_intensity horizon_row of
                      Inl e \<Rightarrow> Inl e
                    | Inr horizon_intensity \<Rightarrow>
                        (let move = target_intensity - horizon_intensity
                         in horizon_loop pd df target_dt target_intensity rest
                              (AList.update horizon (Some move) moves)))))"

text \<open>
  The function takes the store and the reference \<open>metrics_df\<close> of the caller's frame and
  returns the store it leaves behind with its result.
  \<^verbatim>\<open>
  if 'date' in metrics_df.columns:
      metrics_df = metrics_df.copy()
      metrics_df['date'] = pd.to_datetime(metrics_df['date'])
  \<close>
\<close>

definition coerce_dates :: "pandas \<Rightarrow> store \<Rightarrow> nat \<Rightarrow> store \<times> nat \<times> (error + unit)" where
  "coerce_dates pd st metrics_df =
     (case date_column (st ! metrics_df) of
        None \<Rightarrow> (st, metrics_df, Inr ())
      | Some _ \<Rightarrow>
          (let copy_ref = length st;
               st1 = st @ [st ! metrics_df]
           in case date_column (st1 ! copy_ref) of
                None \<Rightarrow> (st1, copy_ref, Inl (KeyError ''date''))
              | Some cells \<Rightarrow>
                  (case to_datetime_series pd cells of
                     None \<Rightarrow> (st1, copy_ref, Inl DateParseError)
                   | Some ts \<Rightarrow>
                       (st1[copy_ref := (st1 ! copy_ref)\<lparr>date_column := Some (map Timestamp ts)\<rparr>],
                        copy_ref, Inr ()))))"

definition calculate_horizon_moves ::
  "pandas \<Rightarrow> store \<Rightarrow> nat \<Rightarrow> string \<Rightarrow> int list
     \<Rightarrow> store \<times> (error + (int \<times> real option) list)" where
  "calculate_horizon_moves pd st metrics_df target_date horizons =
     (let moves = [];
          (st1, metrics_df, coerced) = coerce_dates pd st metrics_df
      in (st1,
          case coerced of
            Inl e \<Rightarrow> Inl e
          | Inr _ \<Rightarrow>
              (case to_datetime_scalar pd target_date of
                 None \<Rightarrow> Inl DateParseError
               | Some target_dt \<Rightarrow>
                   (case select_rows (st1 ! metrics_df) target_dt of
                      Inl e \<Rightarrow> Inl e
                    | Inr target_row \<Rightarrow>
                        if frame_empty target_row
                        then Inr (fold (\<lambda>h. AList.update h None) horizons [])
                        else
                          (case first_intensity target_row of
                             Inl e \<Rightarrow> Inl e
                           | Inr target_intensity \<Rightarrow>
                               horizon_loop pd (st1 ! metrics_df) target_dt target_intensity
                                 horizons moves)))))"

subsection \<open>\<open>detect_alerts\<close>\<close>

record alert =
  horizon :: int
  move :: real
  abs_move :: real

fun detect_alerts :: "(int \<times> real option) list \<Rightarrow> real \<Rightarrow> alert list" where
  "detect_alerts [] threshold = []"
| "detect_alerts ((h, m) # rest) threshold =
     (case m of
        None \<Rightarrow> detect_alerts rest threshold
      | Some v \<Rightarrow>
          if \<bar>v\<bar> > threshold
          then \<lparr>horizon = h, move = v, abs_move = \<bar>v\<bar>\<rparr> # detect_alerts rest threshold
          else detect_alerts rest threshold)"

subsection \<open>Notions of the specification\<close>

text \<open>
  The definitions of this subsection follow the words of the specification, not the code;
  the theorems compare the code with them.

  The date range of a request after the defaults are filled in, and the dense daily series
  the query builds for it.
\<close>

definition effective_end :: "day \<Rightarrow> day option \<Rightarrow> day" where
  "effective_end today end_date = (case end_date of None \<Rightarrow> today | Some e \<Rightarrow> e)"

definition effective_start :: "day \<Rightarrow> day option \<Rightarrow> day option \<Rightarrow> day" where
  "effective_start today start_date end_date =
     (case start_date of None \<Rightarrow> effective_end today end_date - 365 | Some s \<Rightarrow> s)"

text \<open>The deduplicated items of a narrative on a day: the distinct pairs of id and score.\<close>

definition items_on :: "article list \<Rightarrow> string \<Rightarrow> day \<Rightarrow> (nat \<times> real option) set" where
  "items_on articles narrative d =
     {(article_id a, sentiment_score a) | a.
        a \<in> set articles \<and> primary_label_v2 a = Some narrative \<and> published_at a = d}"

definition request_series :: "article list \<Rightarrow> string \<Rightarrow> day \<Rightarrow> day \<Rightarrow> series_row list" where
  "request_series articles narrative lo hi = daily_series (daily_items articles narrative lo hi) lo hi"

text \<open>
  Rolling baseline: the counts of the days \<open>t - W .. t - 1\<close> of the series, their number,
  their mean (0 for no prior day), their sample standard deviation dividing by \<open>n - 1\<close>
  (0 for fewer than two prior days), and the intensity.
\<close>

definition prior_counts :: "nat \<Rightarrow> series_row list \<Rightarrow> day \<Rightarrow> real list" where
  "prior_counts W series t =
     map (\<lambda>r. real_of_int (s_count r))
       (filter (\<lambda>r. t - int W \<le> s_date r \<and> s_date r \<le> t - 1) series)"

definition item_count :: "series_row list \<Rightarrow> day \<Rightarrow> real" where
  "item_count series t =
     (case find (\<lambda>r. s_date r = t) series of None \<Rightarrow> 0 | Some r \<Rightarrow> real_of_int (s_count r))"

definition mean :: "real list \<Rightarrow> real" where
  "mean xs = sum_list xs / real (length xs)"

definition sample_std :: "real list \<Rightarrow> real" where
  "sample_std xs = sqrt (sum_list (map (\<lambda>x. (x - mean xs)\<^sup>2) xs) / (real (length xs) - 1))"

definition spec_baseline_n :: "nat \<Rightarrow> series_row list \<Rightarrow> day \<Rightarrow> nat" where
  "spec_baseline_n W series t = length (prior_counts W series t)"

definition spec_rolling_mean :: "nat \<Rightarrow> series_row list \<Rightarrow> day \<Rightarrow> real" where
  "spec_rolling_mean W series t =
     (if spec_baseline_n W series t = 0 then 0 else mean (prior_counts W series t))"

definition spec_rolling_std :: "nat \<Rightarrow> series_row list \<Rightarrow> day \<Rightarrow> real" where
  "spec_rolling_std W series t =
     (if spec_baseline_n W series t < 2 then 0 else sample_std (prior_counts W series t))"

definition spec_intensity :: "nat \<Rightarrow> real \<Rightarrow> series_row list \<Rightarrow> day \<Rightarrow> real" where
  "spec_intensity W eps series t =
     (if spec_baseline_n W series t = 0 then 0
      else (item_count series t - spec_rolling_mean W series t)
           / max (spec_rolling_std W series t) eps)"

text \<open>
  Two readings of the trailing sentiment window of the day at position \<open>i\<close>: the last \<open>P\<close>
  defined sentiment values up to and including that day, whatever their dates; and the
  defined sentiment values of the \<open>P\<close> calendar days \<open>t - P + 1 .. t\<close>.
\<close>

definition last_defined_window :: "nat \<Rightarrow> real option list \<Rightarrow> nat \<Rightarrow> real list" where
  "last_defined_window P sentiments i =
     (let defined = List.map_filter (\<lambda>v. v) (take (i + 1) sentiments)
      in drop (length defined - P) defined)"

definition calendar_sentiment_window :: "nat \<Rightarrow> series_row list \<Rightarrow> day \<Rightarrow> real list" where
  "calendar_sentiment_window P series t =
     List.map_filter s_sentiment (filter (\<lambda>r. t - int P < s_date r \<and> s_date r \<le> t) series)"

text \<open>
  The intensity of a date in a metrics series given by its columns (the first row of that
  date), and the move of a horizon.
\<close>

definition intensity_on :: "day list \<Rightarrow> real list \<Rightarrow> day \<Rightarrow> real option" where
  "intensity_on ds ints x = map_of (zip ds ints) x"

definition spec_move :: "day list \<Rightarrow> real list \<Rightarrow> day \<Rightarrow> int \<Rightarrow> real option" where
  "spec_move ds ints d h =
     (case intensity_on ds ints d of
        None \<Rightarrow> None
      | Some a \<Rightarrow> (case intensity_on ds ints (d - h) of None \<Rightarrow> None | Some b \<Rightarrow> Some (a - b)))"

subsection \<open>Example inputs\<close>

text \<open>Small inputs on which the theorems are run.\<close>

definition example_articles :: "article list" where
  "example_articles =
     [\<lparr>article_id = 1, primary_label_v2 = Some ''rates'', published_at = 10, sentiment_score = Some (1 / 10)\<rparr>,
      \<lparr>article_id = 2, primary_label_v2 = Some ''rates'', published_at = 12, sentiment_score = Some (1 / 2)\<rparr>,
      \<lparr>article_id = 2, primary_label_v2 = Some ''rates'', published_at = 12, sentiment_score = Some (1 / 2)\<rparr>,
      \<lparr>article_id = 3, primary_label_v2 = Some ''fx'', published_at = 11, sentiment_score = Some 1\<rparr>,
      \<lparr>article_id = 4, primary_label_v2 = None, published_at = 11, sentiment_score = None\<rparr>]"

definition unscored_articles :: "article list" where
  "unscored_articles =
     [\<lparr>article_id = 7, primary_label_v2 = Some ''rates'', published_at = 10, sentiment_score = None\<rparr>]"

text \<open>
  A pandas that reads three dates of January 2024, reads a column cell by cell, and has the
  timestamp range of nanosecond resolution, 1677-09-22 to 2262-04-11.
\<close>

definition example_parse :: "string \<Rightarrow> day option" where
  "example_parse =
     map_of [(''2024-01-05'', 738890), (''2024-01-09'', 738894), (''2024-01-10'', 738895)]"

definition example_pandas :: pandas where
  "example_pandas =
     \<lparr>to_datetime_scalar = example_parse,
      to_datetime_series =
        (\<lambda>cells. those (map (\<lambda>c. case c of DateStr s \<Rightarrow> example_parse s | Timestamp t \<Rightarrow> Some t) cells)),
      timestamp_sub_ok = (\<lambda>d k. 612412 \<le> d - k \<and> d - k \<le> 825914)\<rparr>"

definition example_frame :: data_frame where
  "example_frame =
     \<lparr>date_column = Some [DateStr ''2024-01-05'', DateStr ''2024-01-09'', DateStr ''2024-01-10''],
      intensity_column = Some [1, 2, 4]\<rparr>"

section \<open>Percent rank\<close>

lemma percent_rank_nonneg: "0 \<le> percent_rank ws x"
  by (simp add: percent_rank_def Let_def)

text \<open>
  Claim C2. The percent rank of \<open>x\<close> in a window of \<open>n\<close> values is 0 when \<open>n \<le> 1\<close> and
  \<open>(rank - 1) / (n - 1)\<close> otherwise, where \<open>rank\<close> is 1 plus the number of window positions
  holding a value strictly less than \<open>x\<close>; two window elements with the same value get the
  same percentile, and in a window whose values are all equal every element gets 0.
\<close>

theorem percent_rank_spec:
  "percent_rank ws x =
     (if length ws \<le> 1 then 0
      else (real (1 + card {i. i < length ws \<and> ws ! i < x}) - 1) / (real (length ws) - 1)) \<and>
   (\<forall>i < length ws. \<forall>j < length ws. ws ! i = ws ! j \<longrightarrow>
      percent_rank ws (ws ! i) = percent_rank ws (ws ! j)) \<and>
   ((\<forall>v \<in> set ws. v = c) \<longrightarrow> (\<forall>y \<in> set ws. percent_rank ws y = 0))"
proof (intro conjI allI impI ballI)
  have len: "length (filter (\<lambda>v. v < x) ws) = card {i. i < length ws \<and> ws ! i < x}"
    by (rule length_filter_conv_card)
  show "percent_rank ws x =
     (if length ws \<le> 1 then 0
      else (real (1 + card {i. i < length ws \<and> ws ! i < x}) - 1) / (real (length ws) - 1))"
    by (simp add: percent_rank_def Let_def len)
next
  fix i j
  assume "ws ! i = ws ! j"
  then show "percent_rank ws (ws ! i) = percent_rank ws (ws ! j)"
    by simp
next
  fix y
  assume all: "\<forall>v \<in> set ws. v = c" and y: "y \<in> set ws"
  have "\<not> v < y" if "v \<in> set ws" for v
  proof -
    have "v = c" and "y = c"
      using all y that by blast+
    then show ?thesis by simp
  qed
  then have "filter (\<lambda>v. v < y) ws = []"
    by (simp add: filter_empty_conv)
  then show "percent_rank ws y = 0"
    by (simp add: percent_rank_def Let_def)
qed

theorem percent_rank_spec_witness:
  "(5::real) \<in> set [5, 5, 5] \<and> percent_rank [5, 5, 5] 5 = 0 \<and> percent_rank [7] 7 = 0 \<and>
   percent_rank [1, 2, 2, 3] ([1, 2, 2, 3] ! 1) = 1 / 3 \<and>
   percent_rank [1, 2, 2, 3] ([1, 2, 2, 3] ! 2) = 1 / 3"
  using percent_rank_spec [of "[5, 5, 5]" 5 5] percent_rank_spec [of "[7]" 7 7]
    percent_rank_spec [of "[1, 2, 2, 3]" 2 0]
  by (simp add: percent_rank_def)

section \<open>Structure of the computed series\<close>

lemma percent_rank_le_1: "x \<in> set ws \<Longrightarrow> percent_rank ws x \<le> 1"
proof -
  assume x: "x \<in> set ws"
  have "length (filter (\<lambda>v. v < x) ws) < length ws"
    by (rule length_filter_less [OF x]) simp
  then show ?thesis
    by (simp add: percent_rank_def Let_def)
qed

lemma intensity_pct_at_bounds:
  "i < length xs \<Longrightarrow> 0 \<le> intensity_pct_at pwin xs i \<and> intensity_pct_at pwin xs i \<le> 1"
proof -
  assume i: "i < length xs"
  show ?thesis
  proof (cases "start_idx pwin i \<le> i")
    case True
    define a where "a = start_idx pwin i"
    have n: "i - a < length (drop a (take (Suc i) xs))"
      using True i by (simp add: a_def)
    have "drop a (take (Suc i) xs) ! (i - a) = xs ! i"
      using True i by (simp add: a_def)
    with nth_mem [OF n] have "xs ! i \<in> set (drop (start_idx pwin i) (take (Suc i) xs))"
      by (simp add: a_def)
    then show ?thesis
      by (simp add: intensity_pct_at_def py_slice_def percent_rank_nonneg percent_rank_le_1)
  next
    case False
    then have "py_slice xs (start_idx pwin i) (i + 1) = []"
      by (simp add: py_slice_def)
    then show ?thesis
      by (simp add: intensity_pct_at_def percent_rank_def)
  qed
qed

lemma filter_upto: "filter (\<lambda>d. a \<le> d \<and> d \<le> b) [lo..hi] = [max lo a..min hi b]"
proof (rule sorted_distinct_set_unique)
  show "set (filter (\<lambda>d. a \<le> d \<and> d \<le> b) [lo..hi]) = set [max lo a..min hi b]"
    by auto
qed (simp_all add: sorted_filter[where f="\<lambda>x. x", simplified])

lemma narrative_metrics_Inr:
  "narrative_metrics articles today narrative sd ed w pw eps = Inr ms \<longleftrightarrow>
     query_valid w pw eps \<and> effective_start today sd ed \<le> effective_end today ed \<and>
     (sd = None \<longrightarrow> date_min \<le> effective_end today ed - 365 \<and>
        effective_end today ed - 365 \<le> date_max) \<and>
     date_min \<le> effective_start today sd ed - max w pw \<and>
     effective_start today sd ed - max w pw \<le> date_max \<and>
     ms = build_metrics pw (effective_start today sd ed) (effective_end today ed)
            (metrics_query articles (nat w) narrative
               (effective_start today sd ed - max w pw) (effective_end today ed) eps)"
proof (cases "query_valid w pw eps")
  case False
  then show ?thesis
    by (simp add: narrative_metrics_def)
next
  case True
  then have clamp: "max 1 (min w 365) = w" "max 1 (min pw 730) = pw"
    by (simp_all add: query_valid_def)
  show ?thesis
    using True
    by (cases sd; cases ed)
       (auto simp: narrative_metrics_def narrative_metrics_body_def clamp date_sub_def
          effective_start_def effective_end_def Let_def)
qed

lemma map_date_daily_series: "map s_date (daily_series items lo hi) = [lo..hi]"
proof -
  have "s_date (case daily_agg items d of
                  None \<Rightarrow> \<lparr>s_date = d, s_count = 0, s_sentiment = None\<rparr>
                | Some (c, s) \<Rightarrow> \<lparr>s_date = d, s_count = c, s_sentiment = s\<rparr>) = d" for d
    by (simp split: option.split prod.split)
  then show ?thesis
    by (simp add: daily_series_def comp_def)
qed

lemma length_daily_series: "length (daily_series items lo hi) = nat (hi - lo + 1)"
  using arg_cong [OF map_date_daily_series, of length items lo hi] by simp

lemma length_metrics_query:
  "length (metrics_query articles win narrative lo hi eps) = nat (hi - lo + 1)"
  by (simp add: metrics_query_def Let_def length_daily_series)

lemma nth_metrics_query:
  assumes "i < nat (hi - lo + 1)"
  shows "metrics_query articles win narrative lo hi eps ! i =
           rolling_row win eps (request_series articles narrative lo hi) i"
  using assms by (simp add: metrics_query_def Let_def length_daily_series request_series_def)

lemma date_request_series:
  assumes "i < nat (hi - lo + 1)"
  shows "s_date (request_series articles narrative lo hi ! i) = lo + int i"
proof -
  have "s_date (request_series articles narrative lo hi ! i) =
          map s_date (request_series articles narrative lo hi) ! i"
    using assms by (simp add: request_series_def length_daily_series)
  also have "\<dots> = lo + int i"
    using assms by (simp add: request_series_def map_date_daily_series)
  finally show ?thesis .
qed

lemma rolling_row_fields:
  "r_date (rolling_row win eps series i) = s_date (series ! i)"
  "r_count (rolling_row win eps series i) = s_count (series ! i)"
  "r_sentiment (rolling_row win eps series i) = s_sentiment (series ! i)"
  by (simp_all add: rolling_row_def Let_def)

lemma build_metrics_mem:
  assumes "m \<in> set (build_metrics pwin s e rows)"
  shows "\<exists>i < length rows.
           s \<le> r_date (rows ! i) \<and> r_date (rows ! i) \<le> e \<and>
           date m = r_date (rows ! i) \<and>
           article_count m = r_count (rows ! i) \<and>
           rolling_mean m = coalesce (r_rolling_mean (rows ! i)) 0 \<and>
           rolling_std m = coalesce (r_rolling_std (rows ! i)) 0 \<and>
           intensity m = coalesce (r_intensity (rows ! i)) 0 \<and>
           sentiment_mean m = r_sentiment (rows ! i) \<and>
           intensity_percentile m =
             intensity_pct_at pwin (map (\<lambda>r. coalesce (r_intensity r) 0) rows) i \<and>
           sentiment_percentile m = sentiment_pct_at pwin (map r_sentiment rows) i"
proof -
  from assms obtain i where i: "i < length rows"
    and keep: "s \<le> map r_date rows ! i \<and> map r_date rows ! i \<le> e"
    and m: "m = \<lparr>date = map r_date rows ! i,
                  article_count = map r_count rows ! i,
                  rolling_mean = map (\<lambda>r. coalesce (r_rolling_mean r) 0) rows ! i,
                  rolling_std = map (\<lambda>r. coalesce (r_rolling_std r) 0) rows ! i,
                  intensity = map (\<lambda>r. coalesce (r_intensity r) 0) rows ! i,
                  sentiment_mean = map r_sentiment rows ! i,
                  intensity_percentile =
                    intensity_pcts pwin (map (\<lambda>r. coalesce (r_intensity r) 0) rows) ! i,
                  sentiment_percentile = sentiment_pcts pwin (map r_sentiment rows) ! i\<rparr>"
    by (auto simp: build_metrics_def Let_def)
  show ?thesis
    using i keep by (intro exI [of _ i]) (simp add: m intensity_pcts_def sentiment_pcts_def)
qed

lemma map_date_build_metrics:
  "map date (build_metrics pwin s e rows) = filter (\<lambda>d. s \<le> d \<and> d \<le> e) (map r_date rows)"
proof -
  have "map date (build_metrics pwin s e rows) =
          map (\<lambda>i. map r_date rows ! i)
            (filter (\<lambda>i. s \<le> map r_date rows ! i \<and> map r_date rows ! i \<le> e) [0..<length (map r_date rows)])"
    by (simp add: build_metrics_def Let_def comp_def)
  also have "\<dots> = filter (\<lambda>d. s \<le> d \<and> d \<le> e) (map (\<lambda>i. map r_date rows ! i) [0..<length (map r_date rows)])"
    by (simp add: filter_map comp_def)
  also have "map (\<lambda>i. map r_date rows ! i) [0..<length (map r_date rows)] = map r_date rows"
    by (rule map_nth)
  finally show ?thesis .
qed

lemma map_date_metrics_query:
  "map r_date (metrics_query articles win narrative lo hi eps) = [lo..hi]"
proof (rule nth_equalityI)
  show "length (map r_date (metrics_query articles win narrative lo hi eps)) = length [lo..hi]"
    by (simp add: length_metrics_query)
next
  fix i
  assume "i < length (map r_date (metrics_query articles win narrative lo hi eps))"
  then have i: "i < nat (hi - lo + 1)"
    by (simp add: length_metrics_query)
  then show "map r_date (metrics_query articles win narrative lo hi eps) ! i = [lo..hi] ! i"
    by (simp add: length_metrics_query nth_metrics_query rolling_row_fields date_request_series)
qed

section \<open>A run of the endpoint\<close>

lemma example_items:
  "daily_items example_articles ''rates'' 8 12 = [(1, 10, Some (1 / 10)), (2, 12, Some (1 / 2))]"
  by (simp add: daily_items_def example_articles_def)

lemma example_series:
  "request_series example_articles ''rates'' 8 12 =
     [\<lparr>s_date = 8, s_count = 0, s_sentiment = None\<rparr>,
      \<lparr>s_date = 9, s_count = 0, s_sentiment = None\<rparr>,
      \<lparr>s_date = 10, s_count = 1, s_sentiment = Some (1 / 10)\<rparr>,
      \<lparr>s_date = 11, s_count = 0, s_sentiment = None\<rparr>,
      \<lparr>s_date = 12, s_count = 1, s_sentiment = Some (1 / 2)\<rparr>]"
  by (simp add: request_series_def example_items daily_series_def daily_agg_def sql_avg_def)

lemma example_rows:
  "metrics_query example_articles 1 ''rates'' 8 12 (1 / 4) =
     [\<lparr>r_date = 8, r_count = 0, r_rolling_mean = None, r_rolling_std = None,
        r_intensity = Some 0, r_sentiment = None\<rparr>,
      \<lparr>r_date = 9, r_count = 0, r_rolling_mean = Some 0, r_rolling_std = None,
        r_intensity = Some 0, r_sentiment = None\<rparr>,
      \<lparr>r_date = 10, r_count = 1, r_rolling_mean = Some 0, r_rolling_std = None,
        r_intensity = Some 4, r_sentiment = Some (1 / 10)\<rparr>,
      \<lparr>r_date = 11, r_count = 0, r_rolling_mean = Some 1, r_rolling_std = None,
        r_intensity = Some (- 4), r_sentiment = None\<rparr>,
      \<lparr>r_date = 12, r_count = 1, r_rolling_mean = Some 0, r_rolling_std = None,
        r_intensity = Some 4, r_sentiment = Some (1 / 2)\<rparr>]"
  unfolding metrics_query_def Let_def example_series [unfolded request_series_def]
  by (simp add: rolling_row_def preceding_frame_def sql_avg_def sql_stddev_samp_def
        coalesce_def Let_def upt_conv_Cons)

lemma example_run:
  "narrative_metrics example_articles 100 ''rates'' (Some 10) (Some 12) 1 2 (1 / 4) =
     Inr [\<lparr>date = 10, article_count = 1, rolling_mean = 0, rolling_std = 0, intensity = 4,
            sentiment_mean = Some (1 / 10), intensity_percentile = 1,
            sentiment_percentile = Some 0\<rparr>,
          \<lparr>date = 11, article_count = 0, rolling_mean = 1, rolling_std = 0, intensity = - 4,
            sentiment_mean = None, intensity_percentile = 0, sentiment_percentile = None\<rparr>,
          \<lparr>date = 12, article_count = 1, rolling_mean = 0, rolling_std = 0, intensity = 4,
            sentiment_mean = Some (1 / 2), intensity_percentile = 1,
            sentiment_percentile = Some 0\<rparr>]"
proof -
  have "build_metrics 2 10 12 (metrics_query example_articles 1 ''rates'' 8 12 (1 / 4)) =
     [\<lparr>date = 10, article_count = 1, rolling_mean = 0, rolling_std = 0, intensity = 4,
            sentiment_mean = Some (1 / 10), intensity_percentile = 1,
            sentiment_percentile = Some 0\<rparr>,
          \<lparr>date = 11, article_count = 0, rolling_mean = 1, rolling_std = 0, intensity = - 4,
            sentiment_mean = None, intensity_percentile = 0, sentiment_percentile = None\<rparr>,
          \<lparr>date = 12, article_count = 1, rolling_mean = 0, rolling_std = 0, intensity = 4,
            sentiment_mean = Some (1 / 2), intensity_percentile = 1,
            sentiment_percentile = Some 0\<rparr>]"
    unfolding example_rows
    by (simp add: build_metrics_def intensity_pcts_def sentiment_pcts_def intensity_pct_at_def
          sentiment_pct_at_def py_slice_def start_idx_def percent_rank_def coalesce_def Let_def upt_conv_Cons)
  then show ?thesis
    by (simp add: narrative_metrics_def query_valid_def narrative_metrics_body_def Let_def
          date_sub_def date_min_def date_max_def)
qed

section \<open>Validation and percentile bounds\<close>

lemma sentiment_pct_at_bounds:
  assumes "i < length xs" and "sentiment_pct_at pwin xs i = Some p"
  shows "0 \<le> p \<and> p \<le> 1"
proof -
  from assms(2) obtain s where s: "xs ! i = Some s"
    and p: "p = percent_rank (List.map_filter (\<lambda>v. v) (py_slice xs (start_idx pwin i) (i + 1))) s"
    by (auto simp: sentiment_pct_at_def Let_def split: option.splits)
  show ?thesis
  proof (cases "start_idx pwin i \<le> i")
    case True
    define a where "a = start_idx pwin i"
    have n: "i - a < length (drop a (take (Suc i) xs))"
      using True assms(1) by (simp add: a_def)
    have "drop a (take (Suc i) xs) ! (i - a) = xs ! i"
      using True assms(1) by (simp add: a_def)
    with nth_mem [OF n] s have "Some s \<in> set (py_slice xs (start_idx pwin i) (i + 1))"
      by (simp add: a_def py_slice_def)
    then have "s \<in> set (List.map_filter (\<lambda>v. v) (py_slice xs (start_idx pwin i) (i + 1)))"
      by (force simp: List.map_filter_def)
    then show ?thesis
      by (simp add: p percent_rank_nonneg percent_rank_le_1)
  next
    case False
    then have "py_slice xs (start_idx pwin i) (i + 1) = []"
      by (simp add: py_slice_def)
    then show ?thesis
      by (simp add: p percent_rank_def)
  qed
qed

text \<open>
  Claim C9. In every returned row the intensity percentile lies in \<open>[0, 1]\<close>, and so does
  the sentiment percentile when it is present.
\<close>

theorem percentiles_in_unit_interval:
  assumes "narrative_metrics articles today narrative start_date end_date window percentile_window epsilon = Inr ms"
    and "m \<in> set ms"
  shows "0 \<le> intensity_percentile m \<and> intensity_percentile m \<le> 1 \<and>
         (\<forall>p. sentiment_percentile m = Some p \<longrightarrow> 0 \<le> p \<and> p \<le> 1)"
proof -
  from assms obtain rows where "m \<in> set (build_metrics percentile_window
      (effective_start today start_date end_date) (effective_end today end_date) rows)"
    by (auto simp: narrative_metrics_Inr)
  from build_metrics_mem [OF this] obtain i where i: "i < length rows"
    and ip: "intensity_percentile m =
               intensity_pct_at percentile_window (map (\<lambda>r. coalesce (r_intensity r) 0) rows) i"
    and sp: "sentiment_percentile m = sentiment_pct_at percentile_window (map r_sentiment rows) i"
    by blast
  have "0 \<le> intensity_percentile m \<and> intensity_percentile m \<le> 1"
    unfolding ip using i by (intro intensity_pct_at_bounds) simp
  moreover have "0 \<le> p \<and> p \<le> 1" if "sentiment_percentile m = Some p" for p
    using sentiment_pct_at_bounds [of i "map r_sentiment rows" percentile_window p] i that sp
    by simp
  ultimately show ?thesis by blast
qed

theorem percentiles_in_unit_interval_witness:
  "0 \<le> intensity_percentile
          (projr (narrative_metrics example_articles 100 ''rates'' (Some 10) (Some 12) 1 2 (1 / 4)) ! 0) \<and>
   intensity_percentile
          (projr (narrative_metrics example_articles 100 ''rates'' (Some 10) (Some 12) 1 2 (1 / 4)) ! 0) \<le> 1 \<and>
   sentiment_percentile
          (projr (narrative_metrics example_articles 100 ''rates'' (Some 10) (Some 12) 1 2 (1 / 4)) ! 0) = Some 0"
proof -
  let ?ms = "projr (narrative_metrics example_articles 100 ''rates'' (Some 10) (Some 12) 1 2 (1 / 4))"
  have run: "narrative_metrics example_articles 100 ''rates'' (Some 10) (Some 12) 1 2 (1 / 4) = Inr ?ms"
    by (simp add: example_run)
  have mem: "?ms ! 0 \<in> set ?ms"
    by (simp add: example_run)
  from percentiles_in_unit_interval [OF run mem] show ?thesis
    by (simp add: example_run)
qed

text \<open>
  Claim C8. A request whose \<open>window\<close> is outside \<open>[1, 365]\<close>, whose \<open>percentile_window\<close> is
  outside \<open>[1, 730]\<close> or whose \<open>epsilon\<close> is outside \<open>(0, 10]\<close> is answered with a validation
  error, and a request whose start date is after its end date with the error 400, whatever
  the table holds; no list of metrics is returned. When a list is returned, the parameters
  were in range and the clamps of the body left them as they were.
\<close>

theorem invalid_request_rejected:
  "(\<not> (1 \<le> window \<and> window \<le> 365) \<or> \<not> (1 \<le> percentile_window \<and> percentile_window \<le> 730)
      \<or> \<not> (0 < epsilon \<and> epsilon \<le> 10) \<longrightarrow>
      narrative_metrics articles today narrative start_date end_date window percentile_window epsilon
        = Inl RequestValidationError) \<and>
   (1 \<le> window \<and> window \<le> 365 \<and> 1 \<le> percentile_window \<and> percentile_window \<le> 730
      \<and> 0 < epsilon \<and> epsilon \<le> 10
      \<and> effective_start today start_date end_date > effective_end today end_date \<longrightarrow>
      narrative_metrics articles today narrative start_date end_date window percentile_window epsilon
        = Inl (HTTPException 400 ''start_date must be on or before end_date'')) \<and>
   (\<forall>ms. narrative_metrics articles today narrative start_date end_date window percentile_window epsilon
        = Inr ms \<longrightarrow>
      effective_start today start_date end_date \<le> effective_end today end_date \<and>
      1 \<le> window \<and> window \<le> 365 \<and> 1 \<le> percentile_window \<and> percentile_window \<le> 730 \<and>
      0 < epsilon \<and> epsilon \<le> 10 \<and>
      max 1 (min window 365) = window \<and> max 1 (min percentile_window 730) = percentile_window)"
proof (intro conjI impI allI)
  assume "\<not> (1 \<le> window \<and> window \<le> 365) \<or> \<not> (1 \<le> percentile_window \<and> percentile_window \<le> 730)
      \<or> \<not> (0 < epsilon \<and> epsilon \<le> 10)"
  then have "\<not> query_valid window percentile_window epsilon"
    by (auto simp: query_valid_def)
  then show "narrative_metrics articles today narrative start_date end_date window percentile_window epsilon
        = Inl RequestValidationError"
    by (simp add: narrative_metrics_def)
next
  assume a: "1 \<le> window \<and> window \<le> 365 \<and> 1 \<le> percentile_window \<and> percentile_window \<le> 730
      \<and> 0 < epsilon \<and> epsilon \<le> 10
      \<and> effective_start today start_date end_date > effective_end today end_date"
  then have "query_valid window percentile_window epsilon"
    by (simp add: query_valid_def)
  with a show "narrative_metrics articles today narrative start_date end_date window percentile_window epsilon
        = Inl (HTTPException 400 ''start_date must be on or before end_date'')"
    by (cases start_date; cases end_date)
       (simp_all add: narrative_metrics_def narrative_metrics_body_def effective_start_def
          effective_end_def Let_def)
next
  fix ms
  assume "narrative_metrics articles today narrative start_date end_date window percentile_window epsilon
        = Inr ms"
  then have v: "query_valid window percentile_window epsilon"
    and le: "effective_start today start_date end_date \<le> effective_end today end_date"
    by (simp_all add: narrative_metrics_Inr)
  from v le show "effective_start today start_date end_date \<le> effective_end today end_date"
    "1 \<le> window" "window \<le> 365" "1 \<le> percentile_window" "percentile_window \<le> 730"
    "0 < epsilon" "epsilon \<le> 10"
    "max 1 (min window 365) = window" "max 1 (min percentile_window 730) = percentile_window"
    by (simp_all add: query_valid_def)
qed

theorem invalid_request_rejected_witness:
  "\<not> (1 \<le> (0::int) \<and> (0::int) \<le> 365) \<and>
   narrative_metrics example_articles 100 ''rates'' (Some 10) (Some 12) 0 2 (1 / 4)
     = Inl RequestValidationError \<and>
   effective_start 100 (Some 13) (Some 12) > effective_end 100 (Some 12) \<and>
   narrative_metrics example_articles 100 ''rates'' (Some 13) (Some 12) 1 2 (1 / 4)
     = Inl (HTTPException 400 ''start_date must be on or before end_date'') \<and>
   effective_start 100 (Some 10) (Some 12) \<le> effective_end 100 (Some 12) \<and>
   max 1 (min (1::int) 365) = 1 \<and> max 1 (min (2::int) 730) = 2"
  using invalid_request_rejected [where window = 0 and percentile_window = 2 and epsilon = "1 / 4"
      and articles = example_articles and today = 100 and narrative = "''rates''"
      and start_date = "Some 10" and end_date = "Some 12"]
    invalid_request_rejected [where window = 1 and percentile_window = 2 and epsilon = "1 / 4"
      and articles = example_articles and today = 100 and narrative = "''rates''"
      and start_date = "Some 13" and end_date = "Some 12"]
    invalid_request_rejected [where window = 1 and percentile_window = 2 and epsilon = "1 / 4"
      and articles = example_articles and today = 100 and narrative = "''rates''"
      and start_date = "Some 10" and end_date = "Some 12"]
  by (simp add: effective_start_def effective_end_def example_run)

section \<open>Rows of the dense series\<close>

lemma nth_request_series:
  assumes "i < nat (hi - lo + 1)"
  shows "request_series articles narrative lo hi ! i =
           (case daily_agg (daily_items articles narrative lo hi) (lo + int i) of
              None \<Rightarrow> \<lparr>s_date = lo + int i, s_count = 0, s_sentiment = None\<rparr>
            | Some (c, s) \<Rightarrow> \<lparr>s_date = lo + int i, s_count = c, s_sentiment = s\<rparr>)"
proof -
  have "lo + int i \<le> hi"
    using assms by linarith
  then have nth: "[lo..hi] ! i = lo + int i"
    by simp
  show ?thesis
    using assms by (simp add: request_series_def daily_series_def nth split: option.split prod.split)
qed

lemma count_request_series:
  assumes "i < nat (hi - lo + 1)"
  shows "s_count (request_series articles narrative lo hi ! i) =
           int (length (filter (\<lambda>(k, nd, s). nd = lo + int i) (daily_items articles narrative lo hi)))"
  by (simp add: nth_request_series [OF assms] daily_agg_def Let_def)

lemma sentiment_request_series:
  assumes "i < nat (hi - lo + 1)"
  shows "s_sentiment (request_series articles narrative lo hi ! i) =
           sql_avg (map (\<lambda>(k, nd, s). s)
             (filter (\<lambda>(k, nd, s). nd = lo + int i) (daily_items articles narrative lo hi)))"
  by (simp add: nth_request_series [OF assms] daily_agg_def Let_def sql_avg_def)

lemma sql_avg_present: "sql_avg vs \<noteq> None \<longleftrightarrow> (\<exists>x. Some x \<in> set vs)"
proof -
  have "List.map_filter (\<lambda>v. v) vs = [] \<longleftrightarrow> (\<forall>x. Some x \<notin> set vs)"
    by (induction vs) (auto split: option.splits)
  then show ?thesis
    by (auto simp: sql_avg_def Let_def)
qed

lemma items_on_day:
  assumes "lo \<le> d" and "d \<le> hi"
  shows "set (filter (\<lambda>(k, nd, s). nd = d) (daily_items articles narrative lo hi)) =
           (\<lambda>(k, s). (k, d, s)) ` items_on articles narrative d"
  using assms by (auto simp: daily_items_def items_on_def image_iff)

lemma count_items_on:
  assumes "lo \<le> d" and "d \<le> hi"
  shows "length (filter (\<lambda>(k, nd, s). nd = d) (daily_items articles narrative lo hi)) =
           card (items_on articles narrative d)"
proof -
  have "distinct (filter (\<lambda>(k, nd, s). nd = d) (daily_items articles narrative lo hi))"
    by (simp add: daily_items_def)
  then have "length (filter (\<lambda>(k, nd, s). nd = d) (daily_items articles narrative lo hi)) =
               card ((\<lambda>(k, s). (k, d, s)) ` items_on articles narrative d)"
    using items_on_day [OF assms, of articles narrative] distinct_card by metis
  also have "\<dots> = card (items_on articles narrative d)"
    by (rule card_image) (auto simp: inj_on_def)
  finally show ?thesis .
qed

lemma filter_upto_sub:
  assumes "lo \<le> s"
  shows "filter (\<lambda>d. s \<le> d \<and> d \<le> e) [lo..e] = [s..e]"
  using assms by (simp add: filter_upto max_def)

section \<open>The returned rows\<close>

lemma returned_row:
  assumes run: "narrative_metrics articles today narrative start_date end_date window percentile_window epsilon = Inr ms"
    and m: "m \<in> set ms"
  defines "s \<equiv> effective_start today start_date end_date"
    and "e \<equiv> effective_end today end_date"
  defines "lo \<equiv> s - max window percentile_window"
  defines "series \<equiv> request_series articles narrative lo e"
    and "rows \<equiv> metrics_query articles (nat window) narrative lo e epsilon"
  shows "\<exists>i < nat (e - lo + 1).
           date m = lo + int i \<and> s \<le> date m \<and> date m \<le> e \<and>
           rows ! i = rolling_row (nat window) epsilon series i \<and>
           article_count m = s_count (series ! i) \<and>
           sentiment_mean m = s_sentiment (series ! i) \<and>
           rolling_mean m = coalesce (r_rolling_mean (rows ! i)) 0 \<and>
           rolling_std m = coalesce (r_rolling_std (rows ! i)) 0 \<and>
           intensity m = coalesce (r_intensity (rows ! i)) 0 \<and>
           intensity_percentile m =
             intensity_pct_at percentile_window (map (\<lambda>r. coalesce (r_intensity r) 0) rows) i \<and>
           sentiment_percentile m = sentiment_pct_at percentile_window (map r_sentiment rows) i"
proof -
  from run have ms: "ms = build_metrics percentile_window s e rows"
    by (simp add: narrative_metrics_Inr s_def e_def lo_def rows_def)
  from build_metrics_mem [OF m [unfolded ms]] obtain i where i: "i < length rows"
    and facts: "s \<le> r_date (rows ! i)" "r_date (rows ! i) \<le> e"
      "date m = r_date (rows ! i)"
      "article_count m = r_count (rows ! i)"
      "rolling_mean m = coalesce (r_rolling_mean (rows ! i)) 0"
      "rolling_std m = coalesce (r_rolling_std (rows ! i)) 0"
      "intensity m = coalesce (r_intensity (rows ! i)) 0"
      "sentiment_mean m = r_sentiment (rows ! i)"
      "intensity_percentile m =
         intensity_pct_at percentile_window (map (\<lambda>r. coalesce (r_intensity r) 0) rows) i"
      "sentiment_percentile m = sentiment_pct_at percentile_window (map r_sentiment rows) i"
    by blast
  from i have i': "i < nat (e - lo + 1)"
    by (simp add: rows_def length_metrics_query)
  have row: "rows ! i = rolling_row (nat window) epsilon series i"
    unfolding rows_def series_def by (rule nth_metrics_query [OF i'])
  have d: "r_date (rows ! i) = lo + int i"
    by (simp add: row rolling_row_fields series_def date_request_series [OF i'])
  show ?thesis
    using i' facts d row by (intro exI [of _ i]) (simp add: rolling_row_fields)
qed

section \<open>Presence of the sentiment columns\<close>

lemma unscored_run:
  "narrative_metrics unscored_articles 100 ''rates'' (Some 10) (Some 10) 1 1 (1 / 4) =
     Inr [\<lparr>date = 10, article_count = 1, rolling_mean = 0, rolling_std = 0, intensity = 4,
            sentiment_mean = None, intensity_percentile = 0, sentiment_percentile = None\<rparr>]"
proof -
  have items: "daily_items unscored_articles ''rates'' 9 10 = [(7, 10, None)]"
    by (simp add: daily_items_def unscored_articles_def)
  have series: "daily_series [(7, 10, None)] 9 10 =
      [\<lparr>s_date = 9, s_count = 0, s_sentiment = None\<rparr>,
       \<lparr>s_date = 10, s_count = 1, s_sentiment = None\<rparr>]"
    by (simp add: daily_series_def daily_agg_def sql_avg_def)
  have rows: "metrics_query unscored_articles 1 ''rates'' 9 10 (1 / 4) =
     [\<lparr>r_date = 9, r_count = 0, r_rolling_mean = None, r_rolling_std = None,
        r_intensity = Some 0, r_sentiment = None\<rparr>,
      \<lparr>r_date = 10, r_count = 1, r_rolling_mean = Some 0, r_rolling_std = None,
        r_intensity = Some 4, r_sentiment = None\<rparr>]"
    unfolding metrics_query_def Let_def items series
    by (simp add: rolling_row_def preceding_frame_def sql_avg_def sql_stddev_samp_def
          coalesce_def Let_def upt_conv_Cons)
  have "build_metrics 1 10 10 (metrics_query unscored_articles 1 ''rates'' 9 10 (1 / 4)) =
     [\<lparr>date = 10, article_count = 1, rolling_mean = 0, rolling_std = 0, intensity = 4,
            sentiment_mean = None, intensity_percentile = 0, sentiment_percentile = None\<rparr>]"
    unfolding rows
    by (simp add: build_metrics_def intensity_pcts_def sentiment_pcts_def intensity_pct_at_def
          sentiment_pct_at_def py_slice_def start_idx_def percent_rank_def coalesce_def Let_def
          upt_conv_Cons)
  then show ?thesis
    by (simp add: narrative_metrics_def query_valid_def narrative_metrics_body_def Let_def
          date_sub_def date_min_def date_max_def)
qed

text \<open>
  Claim C6, as the code has it. In every returned row the sentiment mean is present if
  and only if the day has an item with a sentiment score, which makes the item count
  positive; a day whose items all lack a score has a positive count and no sentiment mean.
  The sentiment percentile is present if and only if the sentiment mean is.
\<close>

theorem sentiment_presence:
  assumes "narrative_metrics articles today narrative start_date end_date window percentile_window epsilon = Inr ms"
    and "m \<in> set ms"
  shows "(sentiment_mean m \<noteq> None \<longleftrightarrow> (\<exists>k x. (k, Some x) \<in> items_on articles narrative (date m))) \<and>
         (sentiment_mean m \<noteq> None \<longrightarrow> article_count m > 0) \<and>
         (article_count m > 0 \<longleftrightarrow> items_on articles narrative (date m) \<noteq> {}) \<and>
         (sentiment_percentile m \<noteq> None \<longleftrightarrow> sentiment_mean m \<noteq> None)"
proof -
  define s where "s = effective_start today start_date end_date"
  define e where "e = effective_end today end_date"
  define lo where "lo = s - max window percentile_window"
  define rows where "rows = metrics_query articles (nat window) narrative lo e epsilon"
  define d where "d = date m"
  define grp where "grp = filter (\<lambda>(k, nd, s). nd = d) (daily_items articles narrative lo e)"
  from assms(1) have valid: "query_valid window percentile_window epsilon"
    by (simp add: narrative_metrics_Inr)
  then have lo: "lo \<le> s"
    by (auto simp: lo_def query_valid_def max_def)
  from returned_row [OF assms] obtain i where i: "i < nat (e - lo + 1)"
    and dm: "d = lo + int i" "s \<le> d" "d \<le> e"
    and c: "article_count m = s_count (request_series articles narrative lo e ! i)"
    and sm: "sentiment_mean m = s_sentiment (request_series articles narrative lo e ! i)"
    and sp: "sentiment_percentile m = sentiment_pct_at percentile_window (map r_sentiment rows) i"
    unfolding s_def e_def lo_def rows_def d_def by blast
  have lod: "lo \<le> d"
    using lo dm by simp
  have fin: "finite (items_on articles narrative d)"
  proof -
    have "items_on articles narrative d \<subseteq> (\<lambda>a. (article_id a, sentiment_score a)) ` set articles"
      by (auto simp: items_on_def)
    then show ?thesis
      by (rule finite_subset) simp
  qed
  have grp_set: "set grp = (\<lambda>(k, s). (k, d, s)) ` items_on articles narrative d"
    unfolding grp_def by (rule items_on_day [OF lod dm(3)])
  have "s_count (request_series articles narrative lo e ! i) =
          int (length (filter (\<lambda>(k, nd, s). nd = d) (daily_items articles narrative lo e)))"
    unfolding dm(1) by (rule count_request_series [OF i])
  then have count: "article_count m = int (card (items_on articles narrative d))"
    by (simp add: c count_items_on [OF lod dm(3)])
  have mean: "sentiment_mean m = sql_avg (map (\<lambda>(k, nd, s). s) grp)"
    unfolding sm grp_def dm(1) by (rule sentiment_request_series [OF i])
  have present: "sentiment_mean m \<noteq> None \<longleftrightarrow> (\<exists>k x. (k, Some x) \<in> items_on articles narrative d)"
    unfolding mean sql_avg_present using grp_set by (force simp: image_iff)
  have pos: "article_count m > 0 \<longleftrightarrow> items_on articles narrative d \<noteq> {}"
    using fin by (auto simp: count card_gt_0_iff)
  have nth: "map r_sentiment rows ! i = sentiment_mean m"
    using i by (simp add: rows_def length_metrics_query nth_metrics_query rolling_row_fields sm)
  have pct: "sentiment_percentile m \<noteq> None \<longleftrightarrow> sentiment_mean m \<noteq> None"
    by (simp add: sp sentiment_pct_at_def nth Let_def split: option.split)
  from present pos pct show ?thesis
    unfolding d_def by blast
qed

theorem sentiment_presence_witness:
  "sentiment_mean
      (projr (narrative_metrics example_articles 100 ''rates'' (Some 10) (Some 12) 1 2 (1 / 4)) ! 0) \<noteq> None \<and>
   (\<exists>k x. (k, Some x) \<in> items_on example_articles ''rates'' 10) \<and>
   article_count
      (projr (narrative_metrics example_articles 100 ''rates'' (Some 10) (Some 12) 1 2 (1 / 4)) ! 0) > 0 \<and>
   sentiment_percentile
      (projr (narrative_metrics example_articles 100 ''rates'' (Some 10) (Some 12) 1 2 (1 / 4)) ! 0) \<noteq> None \<and>
   sentiment_mean
      (projr (narrative_metrics example_articles 100 ''rates'' (Some 10) (Some 12) 1 2 (1 / 4)) ! 1) = None \<and>
   items_on example_articles ''rates'' 11 = {} \<and>
   sentiment_percentile
      (projr (narrative_metrics example_articles 100 ''rates'' (Some 10) (Some 12) 1 2 (1 / 4)) ! 1) = None"
proof -
  let ?ms = "projr (narrative_metrics example_articles 100 ''rates'' (Some 10) (Some 12) 1 2 (1 / 4))"
  have run: "narrative_metrics example_articles 100 ''rates'' (Some 10) (Some 12) 1 2 (1 / 4) = Inr ?ms"
    by (simp add: example_run)
  have mem0: "?ms ! 0 \<in> set ?ms" and mem1: "?ms ! 1 \<in> set ?ms"
    by (simp_all add: example_run)
  from sentiment_presence [OF run mem0] sentiment_presence [OF run mem1] show ?thesis
    by (simp add: example_run)
qed

theorem sentiment_presence_counterexample:
  "narrative_metrics unscored_articles 100 ''rates'' (Some 10) (Some 10) 1 1 (1 / 4) =
     Inr [\<lparr>date = 10, article_count = 1, rolling_mean = 0, rolling_std = 0, intensity = 4,
            sentiment_mean = None, intensity_percentile = 0, sentiment_percentile = None\<rparr>] \<and>
   article_count (hd (projr (narrative_metrics unscored_articles 100 ''rates'' (Some 10) (Some 10) 1 1 (1 / 4)))) > 0 \<and>
   sentiment_mean (hd (projr (narrative_metrics unscored_articles 100 ''rates'' (Some 10) (Some 10) 1 1 (1 / 4)))) = None"
  by (simp add: unscored_run)

section \<open>Windows by date and by position\<close>

lemma filter_consecutive:
  assumes dates: "\<forall>k < length xs. f (xs ! k) = lo + int k"
    and i: "i \<le> length xs"
  shows "filter (\<lambda>r. lo + int i - int W \<le> f r \<and> f r \<le> lo + int i - 1) xs =
           drop (i - W) (take i xs)"
proof -
  let ?P = "\<lambda>r. lo + int i - int W \<le> f r \<and> f r \<le> lo + int i - 1"
  have inner: "take (i - W) (take i xs) @ drop (i - W) (take i xs) = take i xs"
    by (rule append_take_drop_id)
  have "take (i - W) (take i xs) = take (i - W) xs"
    by (simp add: min_def)
  with inner have inner': "take (i - W) xs @ drop (i - W) (take i xs) = take i xs"
    by (simp only:)
  have outer: "take i xs @ drop i xs = xs"
    by (rule append_take_drop_id)
  have split: "xs = (take (i - W) xs @ drop (i - W) (take i xs)) @ drop i xs"
    by (simp only: inner' outer)
  have before: "filter ?P (take (i - W) xs) = []"
  proof -
    have "\<not> ?P r" if "r \<in> set (take (i - W) xs)" for r
    proof -
      from that obtain k where "k < length (take (i - W) xs)" and "take (i - W) xs ! k = r"
        by (auto simp: in_set_conv_nth)
      then have k: "k < i - W" "k < length xs" and r: "r = xs ! k"
        by auto
      from dates k r have "f r = lo + int k" by simp
      with k show ?thesis by linarith
    qed
    then show ?thesis by (simp add: filter_empty_conv)
  qed
  have after: "filter ?P (drop i xs) = []"
  proof -
    have "\<not> ?P r" if "r \<in> set (drop i xs)" for r
    proof -
      from that obtain k where k: "k < length (drop i xs)" and "drop i xs ! k = r"
        by (auto simp: in_set_conv_nth)
      then have r: "r = xs ! (i + k)" and ik: "i + k < length xs"
        using i by auto
      from dates ik r have "f r = lo + int (i + k)" by simp
      then show ?thesis by simp
    qed
    then show ?thesis by (simp add: filter_empty_conv)
  qed
  have inside: "filter ?P (drop (i - W) (take i xs)) = drop (i - W) (take i xs)"
  proof -
    have "?P r" if "r \<in> set (drop (i - W) (take i xs))" for r
    proof -
      from that obtain k where k: "k < length (drop (i - W) (take i xs))"
        and "drop (i - W) (take i xs) ! k = r"
        by (auto simp: in_set_conv_nth)
      then have r: "r = xs ! (i - W + k)" and ik: "i - W + k < i"
        using i by auto
      from ik i have "i - W + k < length xs" by simp
      with dates r have "f r = lo + int (i - W + k)" by simp
      with ik show ?thesis by linarith
    qed
    then show ?thesis by (simp add: filter_id_conv)
  qed
  have "filter ?P xs = filter ?P ((take (i - W) xs @ drop (i - W) (take i xs)) @ drop i xs)"
    using split by (rule arg_cong)
  also have "\<dots> = drop (i - W) (take i xs)"
    by (simp only: filter_append before after inside append_Nil append_Nil2)
  finally show ?thesis .
qed

lemma find_consecutive:
  assumes dates: "\<forall>k < length xs. f (xs ! k) = lo + int k"
    and i: "i < length xs"
  shows "find (\<lambda>r. f r = lo + int i) xs = Some (xs ! i)"
proof -
  have "\<exists>j < length xs. f (xs ! j) = lo + int i \<and> xs ! i = xs ! j \<and> (\<forall>k < j. \<not> f (xs ! k) = lo + int i)"
  proof (intro exI [of _ i] conjI allI impI)
    fix k assume "k < i"
    with dates i show "\<not> f (xs ! k) = lo + int i" by simp
  qed (use dates i in simp_all)
  then show ?thesis
    by (simp add: find_Some_iff)
qed

lemma request_series_dates:
  "\<forall>k < length (request_series articles narrative lo hi).
     s_date (request_series articles narrative lo hi ! k) = lo + int k"
  by (simp add: request_series_def length_daily_series
        date_request_series [unfolded request_series_def])

lemma length_request_series:
  "length (request_series articles narrative lo hi) = nat (hi - lo + 1)"
  by (simp add: request_series_def length_daily_series)

section \<open>The sentiment percentile window\<close>

lemma map_filter_map: "List.map_filter (\<lambda>v. v) (map f xs) = List.map_filter f xs"
  by (induction xs) (simp_all split: option.split)

lemma sentiment_metrics_query:
  "map r_sentiment (metrics_query articles win narrative lo hi eps) =
     map s_sentiment (request_series articles narrative lo hi)"
  by (rule nth_equalityI)
     (simp_all add: length_metrics_query length_request_series nth_metrics_query rolling_row_fields)

lemma start_idx_nat: "0 \<le> pwin \<Longrightarrow> start_idx pwin i = Suc i - nat pwin"
  by (simp add: start_idx_def)

lemma sentiment_window_by_date:
  assumes dates: "\<forall>k < length series. s_date (series ! k) = lo + int k"
    and len: "Suc i \<le> length series" and pwin: "0 \<le> pwin"
  shows "List.map_filter (\<lambda>v. v) (py_slice (map s_sentiment series) (start_idx pwin i) (Suc i)) =
           calendar_sentiment_window (nat pwin) series (lo + int i)"
proof -
  have eq: "(\<lambda>r. lo + int i - int (nat pwin) < s_date r \<and> s_date r \<le> lo + int i) =
          (\<lambda>r. lo + int (Suc i) - int (nat pwin) \<le> s_date r \<and> s_date r \<le> lo + int (Suc i) - 1)"
    by (rule ext) auto
  have "filter (\<lambda>r. lo + int i - int (nat pwin) < s_date r \<and> s_date r \<le> lo + int i) series =
               drop (Suc i - nat pwin) (take (Suc i) series)"
    unfolding eq by (rule filter_consecutive [OF dates len])
  then have "calendar_sentiment_window (nat pwin) series (lo + int i) =
               List.map_filter s_sentiment (drop (Suc i - nat pwin) (take (Suc i) series))"
    by (simp only: calendar_sentiment_window_def)
  also have "\<dots> = List.map_filter (\<lambda>v. v)
                     (py_slice (map s_sentiment series) (start_idx pwin i) (Suc i))"
    by (simp add: py_slice_def start_idx_nat [OF pwin] map_filter_map drop_map take_map)
  finally show ?thesis by simp
qed

text \<open>
  Claim C3, as the code has it. On a day with a sentiment mean the sentiment percentile is
  the percent rank of that mean among the sentiment means of the \<open>P\<close> calendar days ending
  at and including the day, the days without sentiment left out; it is absent on a day
  without sentiment mean. The window has at most \<open>P\<close> values.
\<close>

theorem sentiment_percentile_window:
  assumes "narrative_metrics articles today narrative start_date end_date window percentile_window epsilon = Inr ms"
    and "m \<in> set ms"
  shows "sentiment_percentile m =
           (case sentiment_mean m of
              None \<Rightarrow> None
            | Some v \<Rightarrow>
                Some (percent_rank
                  (calendar_sentiment_window (nat percentile_window)
                     (request_series articles narrative
                        (effective_start today start_date end_date - max window percentile_window)
                        (effective_end today end_date))
                     (date m)) v)) \<and>
         length (calendar_sentiment_window (nat percentile_window)
                   (request_series articles narrative
                      (effective_start today start_date end_date - max window percentile_window)
                      (effective_end today end_date))
                   (date m)) \<le> nat percentile_window"
proof -
  define e where "e = effective_end today end_date"
  define lo where "lo = effective_start today start_date end_date - max window percentile_window"
  define series where "series = request_series articles narrative lo e"
  define rows where "rows = metrics_query articles (nat window) narrative lo e epsilon"
  from assms(1) have "query_valid window percentile_window epsilon"
    by (simp add: narrative_metrics_Inr)
  then have pwin: "0 \<le> percentile_window"
    by (simp add: query_valid_def)
  from returned_row [OF assms] obtain i where i: "i < nat (e - lo + 1)"
    and d: "date m = lo + int i"
    and sm: "sentiment_mean m = s_sentiment (series ! i)"
    and sp: "sentiment_percentile m = sentiment_pct_at percentile_window (map r_sentiment rows) i"
    unfolding e_def lo_def rows_def series_def by blast
  have sents: "map r_sentiment rows = map s_sentiment series"
    unfolding rows_def series_def by (rule sentiment_metrics_query)
  have nth: "map s_sentiment series ! i = sentiment_mean m"
    using i by (simp add: sm series_def length_request_series)
  have win: "List.map_filter (\<lambda>v. v)
               (py_slice (map s_sentiment series) (start_idx percentile_window i) (Suc i)) =
             calendar_sentiment_window (nat percentile_window) series (date m)"
  proof -
    have "Suc i \<le> length series"
      using i by (simp add: series_def length_request_series)
    moreover have "\<forall>k < length series. s_date (series ! k) = lo + int k"
      unfolding series_def by (rule request_series_dates)
    ultimately show ?thesis
      unfolding d using pwin by (intro sentiment_window_by_date)
  qed
  have pct: "sentiment_percentile m =
           (case sentiment_mean m of
              None \<Rightarrow> None
            | Some v \<Rightarrow>
                Some (percent_rank
                  (calendar_sentiment_window (nat percentile_window) series (date m)) v))"
    by (simp add: sp sents sentiment_pct_at_def nth win Let_def split: option.split)
  have "length (List.map_filter (\<lambda>v. v)
               (py_slice (map s_sentiment series) (start_idx percentile_window i) (Suc i)))
          \<le> length (py_slice (map s_sentiment series) (start_idx percentile_window i) (Suc i))"
    by (simp add: List.map_filter_def)
  also have "\<dots> \<le> nat percentile_window"
    using pwin by (simp add: py_slice_def start_idx_nat)
  finally have "length (calendar_sentiment_window (nat percentile_window) series (date m))
                  \<le> nat percentile_window"
    by (simp only: win)
  with pct show ?thesis
    unfolding series_def lo_def e_def by simp
qed

theorem sentiment_percentile_window_witness:
  "sentiment_percentile
      (projr (narrative_metrics example_articles 100 ''rates'' (Some 10) (Some 12) 1 2 (1 / 4)) ! 2) =
     Some (percent_rank
       (calendar_sentiment_window 2 (request_series example_articles ''rates'' 8 12) 12) (1 / 2)) \<and>
   percent_rank
     (calendar_sentiment_window 2 (request_series example_articles ''rates'' 8 12) 12) (1 / 2) = 0 \<and>
   length (calendar_sentiment_window 2 (request_series example_articles ''rates'' 8 12) 12) \<le> 2"
proof -
  let ?ms = "projr (narrative_metrics example_articles 100 ''rates'' (Some 10) (Some 12) 1 2 (1 / 4))"
  have run: "narrative_metrics example_articles 100 ''rates'' (Some 10) (Some 12) 1 2 (1 / 4) = Inr ?ms"
    by (simp add: example_run)
  have mem: "?ms ! 2 \<in> set ?ms"
    by (simp add: example_run)
  from sentiment_percentile_window [OF run mem] show ?thesis
    by (simp add: example_run effective_start_def effective_end_def)
qed

theorem sentiment_percentile_window_counterexample:
  "sentiment_mean (projr (narrative_metrics example_articles 100 ''rates'' (Some 10) (Some 12) 1 2 (1 / 4)) ! 2)
     = Some (1 / 2) \<and>
   sentiment_percentile (projr (narrative_metrics example_articles 100 ''rates'' (Some 10) (Some 12) 1 2 (1 / 4)) ! 2)
     = Some 0 \<and>
   map s_sentiment (request_series example_articles ''rates'' 8 12)
     = [None, None, Some (1 / 10), None, Some (1 / 2)] \<and>
   last_defined_window 2 [None, None, Some (1 / 10), None, Some (1 / 2)] 4 = [1 / 10, 1 / 2] \<and>
   Some (percent_rank (last_defined_window 2 [None, None, Some (1 / 10), None, Some (1 / 2)] 4) (1 / 2))
     = Some 1"
  by (simp add: example_run example_series last_defined_window_def percent_rank_def)

section \<open>Rolling baseline and intensity\<close>

lemma coalesce_simps: "coalesce None d = d" "coalesce (Some x) d = x"
  by (simp_all add: coalesce_def)

lemma map_filter_Some: "List.map_filter (\<lambda>v. v) (map Some xs) = xs"
  by (induction xs) simp_all

lemma sql_avg_Some: "sql_avg (map Some xs) = (if xs = [] then None else Some (mean xs))"
  by (simp add: sql_avg_def map_filter_Some mean_def)

lemma sum_sq_dev:
  "sum_list (map (\<lambda>x. (x - c)\<^sup>2) xs) =
     sum_list (map (\<lambda>x. x * x) xs) - 2 * c * sum_list xs + real (length xs) * c\<^sup>2"
  by (induction xs) (simp_all add: power2_eq_square algebra_simps)

lemma sum_sq_dev_mean:
  assumes "xs \<noteq> []"
  shows "real (length xs) * sum_list (map (\<lambda>x. (x - mean xs)\<^sup>2) xs) =
           real (length xs) * sum_list (map (\<lambda>x. x * x) xs) - sum_list xs * sum_list xs"
proof -
  define n where "n = real (length xs)"
  define S where "S = sum_list xs"
  define Q where "Q = sum_list (map (\<lambda>x. x * x) xs)"
  have n: "n \<noteq> 0"
    using assms by (simp add: n_def)
  have "n * (Q - 2 * (S / n) * S + n * (S / n)\<^sup>2) = n * Q - S * S"
    using n by (simp add: power2_eq_square field_simps)
  then show ?thesis
    by (simp add: sum_sq_dev mean_def n_def S_def Q_def)
qed

lemma sql_stddev_samp_eq:
  "sql_stddev_samp xs = (if length xs < 2 then None else Some (sample_std xs))"
proof (cases "length xs < 2")
  case True
  then show ?thesis by (simp add: sql_stddev_samp_def Let_def)
next
  case False
  then have ne: "xs \<noteq> []" by auto
  define n where "n = real (length xs)"
  define D where "D = sum_list (map (\<lambda>x. (x - mean xs)\<^sup>2) xs)"
  define N where "N = n * sum_list (map (\<lambda>x. x * x) xs) - sum_list xs * sum_list xs"
  have n: "2 \<le> n" using False by (simp add: n_def)
  have D0: "0 \<le> D"
    unfolding D_def by (rule sum_list_nonneg) auto
  have N: "N = n * D"
    unfolding N_def D_def n_def by (rule sum_sq_dev_mean [OF ne, symmetric])
  have std: "sample_std xs = sqrt (D / (n - 1))"
    by (simp add: sample_std_def D_def n_def)
  have code: "sql_stddev_samp xs = (if N \<le> 0 then Some 0 else Some (sqrt (N / (n * (n - 1)))))"
    using False by (simp add: sql_stddev_samp_def Let_def N_def n_def)
  show ?thesis
  proof (cases "N \<le> 0")
    case True
    with N n D0 have "D = 0"
      by (simp add: mult_le_0_iff)
    with True False show ?thesis
      by (simp add: code std)
  next
    case False
    have "N / (n * (n - 1)) = D / (n - 1)"
      using n by (simp add: N)
    with False \<open>\<not> length xs < 2\<close> show ?thesis
      by (simp add: code std)
  qed
qed

lemma prior_counts_frame:
  assumes dates: "\<forall>k < length series. s_date (series ! k) = lo + int k"
    and i: "i \<le> length series"
  shows "prior_counts W series (lo + int i) =
           map (\<lambda>r. real_of_int (s_count r)) (preceding_frame W series i)"
  unfolding prior_counts_def preceding_frame_def
  by (simp only: filter_consecutive [OF dates i])

lemma item_count_nth:
  assumes dates: "\<forall>k < length series. s_date (series ! k) = lo + int k"
    and i: "i < length series"
  shows "item_count series (lo + int i) = real_of_int (s_count (series ! i))"
  by (simp add: item_count_def find_consecutive [OF dates i])

lemma rolling_row_spec:
  assumes dates: "\<forall>k < length series. s_date (series ! k) = lo + int k"
    and i: "i < length series"
  shows "coalesce (r_rolling_mean (rolling_row W eps series i)) 0 = spec_rolling_mean W series (lo + int i)"
    and "coalesce (r_rolling_std (rolling_row W eps series i)) 0 = spec_rolling_std W series (lo + int i)"
    and "coalesce (r_intensity (rolling_row W eps series i)) 0 = spec_intensity W eps series (lo + int i)"
proof -
  define frame where "frame = map (\<lambda>r. real_of_int (s_count r)) (preceding_frame W series i)"
  have pc: "prior_counts W series (lo + int i) = frame"
    unfolding frame_def using i by (intro prior_counts_frame [OF dates]) simp
  have bn: "spec_baseline_n W series (lo + int i) = length frame"
    by (simp add: spec_baseline_n_def pc)
  have mean: "coalesce (sql_avg (map Some frame)) 0 = spec_rolling_mean W series (lo + int i)"
    by (simp add: sql_avg_Some spec_rolling_mean_def bn pc coalesce_def)
  have std: "coalesce (sql_stddev_samp frame) 0 = spec_rolling_std W series (lo + int i)"
    by (simp add: sql_stddev_samp_eq spec_rolling_std_def bn pc coalesce_def)
  show "coalesce (r_rolling_mean (rolling_row W eps series i)) 0 = spec_rolling_mean W series (lo + int i)"
    using mean by (simp add: rolling_row_def Let_def frame_def)
  show "coalesce (r_rolling_std (rolling_row W eps series i)) 0 = spec_rolling_std W series (lo + int i)"
    using std by (simp add: rolling_row_def Let_def frame_def)
  have "r_intensity (rolling_row W eps series i) =
          (if length frame = 0 then Some 0
           else Some ((real_of_int (s_count (series ! i)) - coalesce (sql_avg (map Some frame)) 0)
                      / max (coalesce (sql_stddev_samp frame) 0) eps))"
    by (simp add: rolling_row_def Let_def frame_def)
  then show "coalesce (r_intensity (rolling_row W eps series i)) 0 = spec_intensity W eps series (lo + int i)"
    by (simp add: mean std spec_intensity_def bn item_count_nth [OF dates i] coalesce_simps)
qed

text \<open>
  The scenario of the specification: counts 10, 12, 11, 9, 13, 50 on six days with \<open>W = 5\<close>.
  On the sixth day the baseline mean is 11, the standard deviation \<open>sqrt 2.5\<close> (about 1.58)
  and the intensity \<open>39 / sqrt 2.5\<close> (about 24.7).
\<close>

lemma six_day_scenario:
  "rolling_row 5 (1 / 4)
     [\<lparr>s_date = 1, s_count = 10, s_sentiment = None\<rparr>,
      \<lparr>s_date = 2, s_count = 12, s_sentiment = None\<rparr>,
      \<lparr>s_date = 3, s_count = 11, s_sentiment = None\<rparr>,
      \<lparr>s_date = 4, s_count = 9, s_sentiment = None\<rparr>,
      \<lparr>s_date = 5, s_count = 13, s_sentiment = None\<rparr>,
      \<lparr>s_date = 6, s_count = 50, s_sentiment = None\<rparr>] 5 =
   \<lparr>r_date = 6, r_count = 50, r_rolling_mean = Some 11, r_rolling_std = Some (sqrt (5 / 2)),
     r_intensity = Some (39 / sqrt (5 / 2)), r_sentiment = None\<rparr>"
proof -
  have "1 \<le> sqrt (5 / 2)"
    by simp
  then have "\<not> sqrt (5 / 2) * 4 \<le> 1"
    by linarith
  then show ?thesis
    by (simp add: rolling_row_def preceding_frame_def sql_avg_def sql_stddev_samp_def
          coalesce_def Let_def)
qed

text \<open>
  Claim C1. For every day \<open>t\<close> of the dense daily series the query builds, and so for every
  returned row, the rolling mean, the rolling standard deviation and the intensity the code
  computes are those of the specification: mean and sample standard deviation (dividing by
  \<open>n - 1\<close>, 0 for fewer than two values) of the counts of the days \<open>t - W .. t - 1\<close> of the
  series, day \<open>t\<close> excluded, and intensity 0 when there is no prior day and
  \<open>(item_count(t) - rolling_mean(t)) / max(rolling_std(t), epsilon)\<close> otherwise, with a
  positive denominator.
\<close>

theorem intensity_from_prior_window:
  assumes "narrative_metrics articles today narrative start_date end_date window percentile_window epsilon = Inr ms"
  shows "(\<forall>row \<in> set (metrics_query articles (nat window) narrative
                        (effective_start today start_date end_date - max window percentile_window)
                        (effective_end today end_date) epsilon).
            coalesce (r_rolling_mean row) 0 =
              spec_rolling_mean (nat window)
                (request_series articles narrative
                   (effective_start today start_date end_date - max window percentile_window)
                   (effective_end today end_date)) (r_date row) \<and>
            coalesce (r_rolling_std row) 0 =
              spec_rolling_std (nat window)
                (request_series articles narrative
                   (effective_start today start_date end_date - max window percentile_window)
                   (effective_end today end_date)) (r_date row) \<and>
            r_intensity row =
              Some (spec_intensity (nat window) epsilon
                (request_series articles narrative
                   (effective_start today start_date end_date - max window percentile_window)
                   (effective_end today end_date)) (r_date row))) \<and>
         (\<forall>m \<in> set ms.
            rolling_mean m =
              spec_rolling_mean (nat window)
                (request_series articles narrative
                   (effective_start today start_date end_date - max window percentile_window)
                   (effective_end today end_date)) (date m) \<and>
            rolling_std m =
              spec_rolling_std (nat window)
                (request_series articles narrative
                   (effective_start today start_date end_date - max window percentile_window)
                   (effective_end today end_date)) (date m) \<and>
            intensity m =
              spec_intensity (nat window) epsilon
                (request_series articles narrative
                   (effective_start today start_date end_date - max window percentile_window)
                   (effective_end today end_date)) (date m) \<and>
            0 < max (rolling_std m) epsilon)"
proof -
  define e where "e = effective_end today end_date"
  define lo where "lo = effective_start today start_date end_date - max window percentile_window"
  define series where "series = request_series articles narrative lo e"
  define rows where "rows = metrics_query articles (nat window) narrative lo e epsilon"
  have dates: "\<forall>k < length series. s_date (series ! k) = lo + int k"
    unfolding series_def by (rule request_series_dates)
  have len: "length series = nat (e - lo + 1)"
    by (simp add: series_def length_request_series)
  from assms have "query_valid window percentile_window epsilon"
    by (simp add: narrative_metrics_Inr)
  then have eps: "0 < epsilon"
    by (simp add: query_valid_def)
  have at: "coalesce (r_rolling_mean (rows ! i)) 0 = spec_rolling_mean (nat window) series (lo + int i) \<and>
            coalesce (r_rolling_std (rows ! i)) 0 = spec_rolling_std (nat window) series (lo + int i) \<and>
            r_intensity (rows ! i) = Some (spec_intensity (nat window) epsilon series (lo + int i)) \<and>
            r_date (rows ! i) = lo + int i"
    if i: "i < nat (e - lo + 1)" for i
  proof -
    have row: "rows ! i = rolling_row (nat window) epsilon series i"
      unfolding rows_def series_def by (rule nth_metrics_query [OF i])
    have il: "i < length series"
      using i len by simp
    have "r_intensity (rows ! i) \<noteq> None"
      by (simp add: row rolling_row_def Let_def)
    then have "r_intensity (rows ! i) = Some (coalesce (r_intensity (rows ! i)) 0)"
      by (auto simp: coalesce_simps)
    then show ?thesis
      using dates il by (simp add: row rolling_row_spec [OF dates il] rolling_row_fields)
  qed
  have all_rows: "coalesce (r_rolling_mean row) 0 = spec_rolling_mean (nat window) series (r_date row) \<and>
      coalesce (r_rolling_std row) 0 = spec_rolling_std (nat window) series (r_date row) \<and>
      r_intensity row = Some (spec_intensity (nat window) epsilon series (r_date row))"
    if "row \<in> set rows" for row
  proof -
    from that obtain i where "i < length rows" and "row = rows ! i"
      by (auto simp: in_set_conv_nth)
    then have "i < nat (e - lo + 1)"
      by (simp add: rows_def length_metrics_query)
    from at [OF this] \<open>row = rows ! i\<close> show ?thesis by simp
  qed
  have returned: "rolling_mean m = spec_rolling_mean (nat window) series (date m) \<and>
      rolling_std m = spec_rolling_std (nat window) series (date m) \<and>
      intensity m = spec_intensity (nat window) epsilon series (date m) \<and>
      0 < max (rolling_std m) epsilon"
    if "m \<in> set ms" for m
  proof -
    from returned_row [OF assms that] obtain i where i: "i < nat (e - lo + 1)"
      and d: "date m = lo + int i"
      and f: "rolling_mean m = coalesce (r_rolling_mean (rows ! i)) 0"
        "rolling_std m = coalesce (r_rolling_std (rows ! i)) 0"
        "intensity m = coalesce (r_intensity (rows ! i)) 0"
      unfolding e_def lo_def rows_def by blast
    from at [OF i] eps show ?thesis
      by (simp add: d f coalesce_simps less_max_iff_disj)
  qed
  from all_rows returned show ?thesis
    unfolding rows_def series_def lo_def e_def by blast
qed

theorem intensity_from_prior_window_witness:
  "intensity
      (projr (narrative_metrics example_articles 100 ''rates'' (Some 10) (Some 12) 1 2 (1 / 4)) ! 0) =
     spec_intensity 1 (1 / 4) (request_series example_articles ''rates'' 8 12) 10 \<and>
   spec_intensity 1 (1 / 4) (request_series example_articles ''rates'' 8 12) 10 = 4 \<and>
   spec_rolling_mean 1 (request_series example_articles ''rates'' 8 12) 11 = 1 \<and>
   spec_rolling_std 1 (request_series example_articles ''rates'' 8 12) 11 = 0"
proof -
  let ?ms = "projr (narrative_metrics example_articles 100 ''rates'' (Some 10) (Some 12) 1 2 (1 / 4))"
  have run: "narrative_metrics example_articles 100 ''rates'' (Some 10) (Some 12) 1 2 (1 / 4) = Inr ?ms"
    by (simp add: example_run)
  from intensity_from_prior_window [OF run] show ?thesis
    by (simp add: example_run effective_start_def effective_end_def)
qed

section \<open>Alert detection\<close>

lemma detect_alerts_set:
  "set (detect_alerts moves_dict threshold) =
     {\<lparr>horizon = h, move = v, abs_move = \<bar>v\<bar>\<rparr> | h v. (h, Some v) \<in> set moves_dict \<and> \<bar>v\<bar> > threshold}"
  by (induction moves_dict threshold rule: detect_alerts.induct) (auto split: option.splits)

lemma detect_alerts_horizons:
  "map horizon (detect_alerts moves_dict threshold) =
     map fst (filter (\<lambda>(h, m). case m of None \<Rightarrow> False | Some v \<Rightarrow> \<bar>v\<bar> > threshold) moves_dict)"
  by (induction moves_dict threshold rule: detect_alerts.induct) (auto split: option.splits)

text \<open>
  Claim C5. The alerts are exactly the entries of the move mapping whose move is present and
  has an absolute value strictly above the threshold, in the order of the mapping: each
  carries its horizon, the move as given and the absolute value of the move. A move equal
  to the threshold in absolute value and an absent move give no alert.
\<close>

theorem detect_alerts_spec:
  "set (detect_alerts moves_dict threshold) =
     {\<lparr>horizon = h, move = v, abs_move = \<bar>v\<bar>\<rparr> | h v. (h, Some v) \<in> set moves_dict \<and> \<bar>v\<bar> > threshold} \<and>
   map horizon (detect_alerts moves_dict threshold) =
     map fst (filter (\<lambda>(h, m). case m of None \<Rightarrow> False | Some v \<Rightarrow> \<bar>v\<bar> > threshold) moves_dict) \<and>
   (\<forall>a \<in> set (detect_alerts moves_dict threshold).
      (horizon a, Some (move a)) \<in> set moves_dict \<and> abs_move a = \<bar>move a\<bar> \<and> \<bar>move a\<bar> > threshold) \<and>
   (distinct (map fst moves_dict) \<longrightarrow>
      distinct (map horizon (detect_alerts moves_dict threshold)) \<and>
      (\<forall>h. h \<in> horizon ` set (detect_alerts moves_dict threshold) \<longleftrightarrow>
         (\<exists>v. map_of moves_dict h = Some (Some v) \<and> \<bar>v\<bar> > threshold)))"
proof (intro conjI impI ballI allI)
  show "set (detect_alerts moves_dict threshold) =
     {\<lparr>horizon = h, move = v, abs_move = \<bar>v\<bar>\<rparr> | h v. (h, Some v) \<in> set moves_dict \<and> \<bar>v\<bar> > threshold}"
    by (rule detect_alerts_set)
  show "map horizon (detect_alerts moves_dict threshold) =
     map fst (filter (\<lambda>(h, m). case m of None \<Rightarrow> False | Some v \<Rightarrow> \<bar>v\<bar> > threshold) moves_dict)"
    by (rule detect_alerts_horizons)
next
  fix a
  assume "a \<in> set (detect_alerts moves_dict threshold)"
  then obtain h v where a: "a = \<lparr>horizon = h, move = v, abs_move = \<bar>v\<bar>\<rparr>"
    and hv: "(h, Some v) \<in> set moves_dict" "\<bar>v\<bar> > threshold"
    unfolding detect_alerts_set by blast
  from a hv show "(horizon a, Some (move a)) \<in> set moves_dict" by simp
  from a show "abs_move a = \<bar>move a\<bar>" by simp
  from a hv show "\<bar>move a\<bar> > threshold" by simp
next
  assume d: "distinct (map fst moves_dict)"
  then show "distinct (map horizon (detect_alerts moves_dict threshold))"
    unfolding detect_alerts_horizons by (rule distinct_map_filter)
  fix h
  show "h \<in> horizon ` set (detect_alerts moves_dict threshold) \<longleftrightarrow>
         (\<exists>v. map_of moves_dict h = Some (Some v) \<and> \<bar>v\<bar> > threshold)"
  proof
    assume "h \<in> horizon ` set (detect_alerts moves_dict threshold)"
    then obtain v where "(h, Some v) \<in> set moves_dict" "\<bar>v\<bar> > threshold"
      unfolding detect_alerts_set by auto
    with d show "\<exists>v. map_of moves_dict h = Some (Some v) \<and> \<bar>v\<bar> > threshold"
      by (auto simp: map_of_eq_Some_iff)
  next
    assume "\<exists>v. map_of moves_dict h = Some (Some v) \<and> \<bar>v\<bar> > threshold"
    then obtain v where "map_of moves_dict h = Some (Some v)" and v: "\<bar>v\<bar> > threshold"
      by blast
    then have "(h, Some v) \<in> set moves_dict"
      by (simp add: map_of_SomeD)
    with v have "\<lparr>horizon = h, move = v, abs_move = \<bar>v\<bar>\<rparr> \<in> set (detect_alerts moves_dict threshold)"
      unfolding detect_alerts_set by blast
    then show "h \<in> horizon ` set (detect_alerts moves_dict threshold)"
      by force
  qed
qed

theorem detect_alerts_spec_witness:
  "distinct (map fst [(5 :: int, Some (6 / 5 :: real)), (1, Some (- 1)), (10, None)]) \<and>
   detect_alerts [(5, Some (6 / 5)), (1, Some (- 1)), (10, None)] 1 =
     [\<lparr>horizon = 5, move = 6 / 5, abs_move = 6 / 5\<rparr>] \<and>
   map horizon (detect_alerts [(5, Some (6 / 5)), (1, Some (- 1)), (10, None)] 1) = [5] \<and>
   distinct (map horizon (detect_alerts [(5, Some (6 / 5)), (1, Some (- 1)), (10, None)] 1))"
proof -
  have run: "detect_alerts [(5, Some (6 / 5)), (1, Some (- 1)), (10, None)] 1 =
     [\<lparr>horizon = 5, move = 6 / 5, abs_move = 6 / 5\<rparr>]"
    by simp
  have d: "distinct (map fst [(5 :: int, Some (6 / 5 :: real)), (1, Some (- 1)), (10, None)])"
    by simp
  from detect_alerts_spec [of "[(5, Some (6 / 5)), (1, Some (- 1)), (10, None)]" 1] d
  have "distinct (map horizon (detect_alerts [(5, Some (6 / 5)), (1, Some (- 1)), (10, None)] 1))"
    by blast
  with run d show ?thesis
    by simp
qed

section \<open>Horizon moves\<close>

lemma coerce_dates_store:
  "\<exists>new. fst (coerce_dates pd st metrics_df) = st @ new"
proof (cases "date_column (st ! metrics_df)")
  case None
  then have "fst (coerce_dates pd st metrics_df) = st @ []"
    by (simp add: coerce_dates_def)
  then show ?thesis by blast
next
  case (Some cells)
  show ?thesis
  proof (cases "to_datetime_series pd cells")
    case None
    with Some have "fst (coerce_dates pd st metrics_df) = st @ [st ! metrics_df]"
      by (simp add: coerce_dates_def Let_def)
    then show ?thesis by blast
  next
    case (Some ts)
    with \<open>date_column (st ! metrics_df) = Some cells\<close>
    have "fst (coerce_dates pd st metrics_df) =
        st @ [(st ! metrics_df)\<lparr>date_column := Some (map Timestamp ts)\<rparr>]"
      by (simp add: coerce_dates_def Let_def)
    then show ?thesis by blast
  qed
qed

lemma calculate_horizon_moves_store:
  "fst (calculate_horizon_moves pd st metrics_df target_date horizons) =
     fst (coerce_dates pd st metrics_df)"
  by (simp add: calculate_horizon_moves_def Let_def split: prod.split)

lemma example_series_parse:
  "to_datetime_series example_pandas
     [DateStr ''2024-01-05'', DateStr ''2024-01-09'', DateStr ''2024-01-10''] =
   Some [738890, 738894, 738895]"
  by (simp add: example_pandas_def example_parse_def)

text \<open>
  Claim C10. The call leaves every frame of the caller's store as it was, the frame
  \<open>metrics_df\<close> and its date column among them: the function only adds a copy to the store
  and coerces the dates of the copy.
\<close>

theorem input_frame_unchanged:
  assumes "metrics_df < length st"
  shows "fst (calculate_horizon_moves pd st metrics_df target_date horizons) ! metrics_df
           = st ! metrics_df \<and>
         take (length st) (fst (calculate_horizon_moves pd st metrics_df target_date horizons))
           = st"
proof -
  obtain new where "fst (calculate_horizon_moves pd st metrics_df target_date horizons) = st @ new"
    using coerce_dates_store [of pd st metrics_df] by (auto simp: calculate_horizon_moves_store)
  with assms show ?thesis
    by (simp add: nth_append)
qed

theorem input_frame_unchanged_witness:
  "(0::nat) < length [example_frame] \<and>
   fst (calculate_horizon_moves example_pandas [example_frame] 0 ''2024-01-10'' [1, 2, 5]) ! 0
     = example_frame \<and>
   fst (calculate_horizon_moves example_pandas [example_frame] 0 ''2024-01-10'' [1, 2, 5])
     = [example_frame,
        \<lparr>date_column = Some [Timestamp 738890, Timestamp 738894, Timestamp 738895],
          intensity_column = Some [1, 2, 4]\<rparr>]"
proof -
  have "fst (calculate_horizon_moves example_pandas [example_frame] 0 ''2024-01-10'' [1, 2, 5])
     = [example_frame,
        \<lparr>date_column = Some [Timestamp 738890, Timestamp 738894, Timestamp 738895],
          intensity_column = Some [1, 2, 4]\<rparr>]"
    by (simp add: calculate_horizon_moves_store coerce_dates_def example_frame_def
          example_series_parse Let_def)
  with input_frame_unchanged [of 0 "[example_frame]" example_pandas "''2024-01-10''" "[1, 2, 5]"]
  show ?thesis by simp
qed

lemma coerce_dates_ok:
  assumes "date_column (st ! metrics_df) = Some cells"
    and "to_datetime_series pd cells = Some ds"
  shows "coerce_dates pd st metrics_df =
           (st @ [(st ! metrics_df)\<lparr>date_column := Some (map Timestamp ds)\<rparr>], length st, Inr ())"
  using assms by (simp add: coerce_dates_def Let_def)

lemma select_mask_map:
  "select_mask (map P xs) ys = map snd (filter (\<lambda>(x, y). P x) (zip xs ys))"
proof (induction xs arbitrary: ys)
  case Nil
  then show ?case by (simp add: select_mask_def)
next
  case (Cons x xs)
  then show ?case
    by (cases ys) (simp_all add: select_mask_def)
qed

lemma select_mask_self:
  "select_mask (map P xs) xs = filter P xs"
  by (induction xs) (simp_all add: select_mask_def)

lemma select_rows_coerced:
  "select_rows \<lparr>date_column = Some (map Timestamp ds), intensity_column = Some ints\<rparr> x =
     Inr \<lparr>date_column = Some (filter (\<lambda>c. c = Timestamp x) (map Timestamp ds)),
          intensity_column = Some (map snd (filter (\<lambda>(d, v). d = x) (zip ds ints)))\<rparr>"
proof -
  have "map (\<lambda>c. c = Timestamp x) (map Timestamp ds) = map (\<lambda>d. d = x) ds"
    by simp
  then have "select_mask (map (\<lambda>c. c = Timestamp x) (map Timestamp ds)) ints =
               map snd (filter (\<lambda>(d, v). d = x) (zip ds ints))"
    by (simp only: select_mask_map)
  then show ?thesis
    by (simp add: select_rows_def Let_def select_mask_self del: map_map)
qed

lemma first_match: "map_of ps x = (case map snd (filter (\<lambda>(d, v). d = x) ps) of [] \<Rightarrow> None | v # _ \<Rightarrow> Some v)"
  by (induction ps) auto

lemma lookup_coerced:
  assumes "length ds = length ints"
  shows "\<exists>row. select_rows \<lparr>date_column = Some (map Timestamp ds), intensity_column = Some ints\<rparr> x
                 = Inr row \<and>
               (case intensity_on ds ints x of
                  None \<Rightarrow> frame_empty row
                | Some v \<Rightarrow> \<not> frame_empty row \<and> first_intensity row = Inr v)"
proof (cases "x \<in> set ds")
  case False
  then have "filter (\<lambda>c. c = Timestamp x) (map Timestamp ds) = []"
    by (auto simp: filter_empty_conv)
  moreover from False assms have "intensity_on ds ints x = None"
    by (simp add: intensity_on_def)
  ultimately show ?thesis
    by (simp add: select_rows_coerced frame_empty_def)
next
  case True
  then have ne: "filter (\<lambda>c. c = Timestamp x) (map Timestamp ds) \<noteq> []"
    by (auto simp: filter_empty_conv)
  from True assms obtain v where v: "map_of (zip ds ints) x = Some v"
    using map_of_zip_is_Some by fastforce
  then have "first_intensity \<lparr>date_column = Some (filter (\<lambda>c. c = Timestamp x) (map Timestamp ds)),
          intensity_column = Some (map snd (filter (\<lambda>(d, v). d = x) (zip ds ints)))\<rparr> = Inr v"
    using first_match [of "zip ds ints" x] by (auto simp: first_intensity_def split: list.splits)
  with ne v show ?thesis
    by (simp add: select_rows_coerced frame_empty_def intensity_on_def)
qed

lemma horizon_loop_fold:
  assumes len: "length ds = length ints"
    and ok: "\<forall>h \<in> set hs. \<bar>h\<bar> \<le> 999999999 \<and> timestamp_sub_ok pd d h"
  shows "horizon_loop pd \<lparr>date_column = Some (map Timestamp ds), intensity_column = Some ints\<rparr>
           d ti hs moves =
         Inr (fold (\<lambda>h. AList.update h
                (case intensity_on ds ints (d - h) of None \<Rightarrow> None | Some b \<Rightarrow> Some (ti - b)))
              hs moves)"
  using ok
proof (induction hs arbitrary: moves)
  case Nil
  show ?case by simp
next
  case (Cons h hs)
  from Cons.prems have h: "timedelta_days h = Inr h" "timestamp_sub_ok pd d h"
    and rest: "\<forall>h \<in> set hs. \<bar>h\<bar> \<le> 999999999 \<and> timestamp_sub_ok pd d h"
    by (simp_all add: timedelta_days_def)
  from lookup_coerced [OF len, of "d - h"] obtain row where
    row: "select_rows \<lparr>date_column = Some (map Timestamp ds), intensity_column = Some ints\<rparr> (d - h)
            = Inr row"
    and look: "case intensity_on ds ints (d - h) of
                 None \<Rightarrow> frame_empty row
               | Some v \<Rightarrow> \<not> frame_empty row \<and> first_intensity row = Inr v"
    by blast
  show ?case
  proof (cases "intensity_on ds ints (d - h)")
    case None
    with look have "frame_empty row" by simp
    with row None h show ?thesis
      by (simp add: Cons.IH [OF rest])
  next
    case (Some v)
    with look have "\<not> frame_empty row" "first_intensity row = Inr v" by simp_all
    with row Some h show ?thesis
      by (simp add: Cons.IH [OF rest])
  qed
qed

lemma map_of_fold_update:
  "map_of (fold (\<lambda>h. AList.update h (g h)) hs moves) k =
     (if k \<in> set hs then Some (g k) else map_of moves k)"
  by (induction hs arbitrary: moves) (auto simp: AList.update_conv')

lemma keys_fold_update:
  "fst ` set (fold (\<lambda>h. AList.update h (g h)) hs moves) = set hs \<union> fst ` set moves"
  by (induction hs arbitrary: moves) (auto simp: AList.dom_update)

lemma distinct_fold_update:
  "distinct (map fst moves) \<Longrightarrow> distinct (map fst (fold (\<lambda>h. AList.update h (g h)) hs moves))"
  by (induction hs arbitrary: moves) (simp_all add: AList.distinct_update)

text \<open>
  Claim C4, as the code has it. Take a metrics frame with a date and an intensity column
  whose dates pandas reads, a target date \<open>d\<close> that pandas reads, and horizons that, when
  \<open>d\<close> has a row, are durations \<open>timedelta\<close> can hold (at most 999999999 days in absolute
  value) with \<open>d - h\<close> in the range of the timestamp type. Then the function raises nothing
  and returns a mapping whose keys are exactly the horizons asked for; a horizon \<open>h\<close> is sent
  to \<open>intensity(d) - intensity(d - h)\<close> when the frame has a row for \<open>d\<close> and a row for
  \<open>d - h\<close>, and to \<open>None\<close> otherwise, never to a number; when \<open>d\<close> has no row every horizon
  is sent to \<open>None\<close>.
\<close>

theorem horizon_moves_spec:
  assumes ref: "metrics_df < length st"
    and dates: "date_column (st ! metrics_df) = Some cells"
    and ints: "intensity_column (st ! metrics_df) = Some ints"
    and conv: "to_datetime_series pd cells = Some ds"
    and len: "length ds = length ints"
    and target: "to_datetime_scalar pd target_date = Some d"
    and ok: "d \<in> set ds \<longrightarrow> (\<forall>h \<in> set horizons. \<bar>h\<bar> \<le> 999999999 \<and> timestamp_sub_ok pd d h)"
  shows "\<exists>moves. snd (calculate_horizon_moves pd st metrics_df target_date horizons) = Inr moves \<and>
           distinct (map fst moves) \<and>
           fst ` set moves = set horizons \<and>
           (\<forall>h \<in> set horizons. map_of moves h = Some (spec_move ds ints d h)) \<and>
           (\<forall>h \<in> set horizons. map_of moves h = Some None \<longleftrightarrow> d \<notin> set ds \<or> d - h \<notin> set ds) \<and>
           (\<forall>h \<in> set horizons. d \<in> set ds \<and> d - h \<in> set ds \<longrightarrow>
              (\<exists>a b. intensity_on ds ints d = Some a \<and> intensity_on ds ints (d - h) = Some b \<and>
                     map_of moves h = Some (Some (a - b))))"
proof -
  define F where "F = \<lparr>date_column = Some (map Timestamp ds), intensity_column = Some ints\<rparr>"
  have absent: "intensity_on ds ints x = None \<longleftrightarrow> x \<notin> set ds" for x
    using len by (simp add: intensity_on_def)
  have F: "(st ! metrics_df)\<lparr>date_column := Some (map Timestamp ds)\<rparr> = F"
    using dates ints by (simp add: F_def)
  have co: "coerce_dates pd st metrics_df = (st @ [F], length st, Inr ())"
    using coerce_dates_ok [OF dates conv] by (simp only: F)
  define moves where
    "moves = fold (\<lambda>h. AList.update h (spec_move ds ints d h)) horizons []"
  have run: "snd (calculate_horizon_moves pd st metrics_df target_date horizons) = Inr moves"
  proof -
    from lookup_coerced [OF len, of d] obtain row where
      row: "select_rows F d = Inr row"
      and look: "case intensity_on ds ints d of
                   None \<Rightarrow> frame_empty row
                 | Some v \<Rightarrow> \<not> frame_empty row \<and> first_intensity row = Inr v"
      unfolding F_def by blast
    show ?thesis
    proof (cases "intensity_on ds ints d")
      case None
      with look have "frame_empty row" by simp
      moreover from None have "spec_move ds ints d = (\<lambda>h. None)"
        by (simp add: spec_move_def fun_eq_iff)
      ultimately show ?thesis
        using row target by (simp add: calculate_horizon_moves_def co moves_def)
    next
      case (Some a)
      with look have "\<not> frame_empty row" "first_intensity row = Inr a" by simp_all
      moreover from Some have "spec_move ds ints d =
          (\<lambda>h. case intensity_on ds ints (d - h) of None \<Rightarrow> None | Some b \<Rightarrow> Some (a - b))"
        by (simp add: spec_move_def fun_eq_iff)
      moreover from Some absent [of d] ok
      have "\<forall>h \<in> set horizons. \<bar>h\<bar> \<le> 999999999 \<and> timestamp_sub_ok pd d h"
        by simp
      ultimately show ?thesis
        using row target horizon_loop_fold [OF len, of horizons pd d a "[]"]
        by (simp add: calculate_horizon_moves_def co moves_def F_def)
    qed
  qed
  have keys: "fst ` set moves = set horizons"
    by (simp add: moves_def keys_fold_update)
  have dist: "distinct (map fst moves)"
    unfolding moves_def by (rule distinct_fold_update) simp
  have val: "map_of moves h = Some (spec_move ds ints d h)" if "h \<in> set horizons" for h
    using that by (simp add: moves_def map_of_fold_update)
  have none: "spec_move ds ints d h = None \<longleftrightarrow> d \<notin> set ds \<or> d - h \<notin> set ds" for h
  proof (cases "intensity_on ds ints d")
    case None
    then show ?thesis
      using absent [of d] by (simp add: spec_move_def)
  next
    case (Some a)
    then have "d \<in> set ds"
      using absent [of d] by simp
    moreover have "spec_move ds ints d h = None \<longleftrightarrow> intensity_on ds ints (d - h) = None"
      using Some by (simp add: spec_move_def split: option.split)
    ultimately show ?thesis
      using absent [of "d - h"] by simp
  qed
  have some: "\<exists>a b. intensity_on ds ints d = Some a \<and> intensity_on ds ints (d - h) = Some b \<and>
                 spec_move ds ints d h = Some (a - b)"
    if "d \<in> set ds" "d - h \<in> set ds" for h
  proof -
    from that obtain a b where "intensity_on ds ints d = Some a"
      "intensity_on ds ints (d - h) = Some b"
      using absent [of d] absent [of "d - h"] by auto
    then show ?thesis
      by (simp add: spec_move_def)
  qed
  from run keys dist val none some show ?thesis
    by (intro exI [of _ moves]) (auto simp del: map_of_eq_Some_iff)
qed

theorem horizon_moves_spec_witness:
  "(0::nat) < length [example_frame] \<and>
   to_datetime_series example_pandas
     [DateStr ''2024-01-05'', DateStr ''2024-01-09'', DateStr ''2024-01-10'']
     = Some [738890, 738894, 738895] \<and>
   to_datetime_scalar example_pandas ''2024-01-10'' = Some 738895 \<and>
   snd (calculate_horizon_moves example_pandas [example_frame] 0 ''2024-01-10'' [1, 2, 5, 1])
     = Inr [(1, Some 2), (2, None), (5, Some 3)] \<and>
   spec_move [738890, 738894, 738895] [1, 2, 4] 738895 1 = Some 2 \<and>
   spec_move [738890, 738894, 738895] [1, 2, 4] 738895 2 = None"
proof -
  have ref: "(0::nat) < length [example_frame]"
    by simp
  have dates: "date_column ([example_frame] ! 0) =
      Some [DateStr ''2024-01-05'', DateStr ''2024-01-09'', DateStr ''2024-01-10'']"
    by (simp add: example_frame_def)
  have ints: "intensity_column ([example_frame] ! 0) = Some [1, 2, 4]"
    by (simp add: example_frame_def)
  have len: "length [738890, 738894, 738895 :: day] = length [1, 2, 4 :: real]"
    by simp
  have target: "to_datetime_scalar example_pandas ''2024-01-10'' = Some 738895"
    by (simp add: example_pandas_def example_parse_def)
  have ok: "738895 \<in> set [738890, 738894, 738895 :: day] \<longrightarrow>
      (\<forall>h \<in> set [1, 2, 5, 1]. \<bar>h\<bar> \<le> 999999999 \<and> timestamp_sub_ok example_pandas 738895 h)"
    by (simp add: example_pandas_def)
  from horizon_moves_spec [OF ref dates ints example_series_parse len target ok]
  obtain moves where m: "snd (calculate_horizon_moves example_pandas [example_frame] 0 ''2024-01-10'' [1, 2, 5, 1])
      = Inr moves"
    and v: "\<forall>h \<in> set [1, 2, 5, 1].
              map_of moves h = Some (spec_move [738890, 738894, 738895] [1, 2, 4] 738895 h)"
    and k: "fst ` set moves = set [1, 2, 5, 1]"
    and d: "distinct (map fst moves)"
    by blast
  have run: "snd (calculate_horizon_moves example_pandas [example_frame] 0 ''2024-01-10'' [1, 2, 5, 1])
     = Inr [(1, Some 2), (2, None), (5, Some 3)]"
    by (simp add: calculate_horizon_moves_def coerce_dates_def example_frame_def
          example_series_parse target timedelta_days_def select_rows_def select_mask_def
          frame_empty_def first_intensity_def Let_def)
       (simp add: example_pandas_def)
  from m run have "moves = [(1, Some 2), (2, None), (5, Some 3)]"
    by simp
  with v have "spec_move [738890, 738894, 738895] [1, 2, 4] 738895 1 = Some 2"
    "spec_move [738890, 738894, 738895] [1, 2, 4] 738895 2 = None"
    by simp_all
  with ref example_series_parse target run show ?thesis
    by simp
qed

theorem horizon_moves_spec_counterexample:
  "to_datetime_series example_pandas
     [DateStr ''2024-01-05'', DateStr ''2024-01-09'', DateStr ''2024-01-10'']
     = Some [738890, 738894, 738895] \<and>
   to_datetime_scalar example_pandas ''2024-01-10'' = Some 738895 \<and>
   snd (calculate_horizon_moves example_pandas [example_frame] 0 ''2024-01-10'' [1000000000])
     = Inl OverflowError"
proof -
  have target: "to_datetime_scalar example_pandas ''2024-01-10'' = Some 738895"
    by (simp add: example_pandas_def example_parse_def)
  have "snd (calculate_horizon_moves example_pandas [example_frame] 0 ''2024-01-10'' [1000000000])
     = Inl OverflowError"
    by (simp add: calculate_horizon_moves_def coerce_dates_def example_frame_def
          example_series_parse target timedelta_days_def select_rows_def select_mask_def
          frame_empty_def first_intensity_def Let_def)
  with example_series_parse target show ?thesis
    by simp
qed

section \<open>The returned range and the lookback\<close>

lemma filter_upt_range:
  assumes "lo \<le> a"
  shows "filter (\<lambda>i. a \<le> lo + int i \<and> lo + int i \<le> e) [0..<nat (e - lo + 1)] =
           [nat (a - lo)..<nat (e - lo + 1)]"
proof (rule sorted_distinct_set_unique)
  show "set (filter (\<lambda>i. a \<le> lo + int i \<and> lo + int i \<le> e) [0..<nat (e - lo + 1)]) =
          set [nat (a - lo)..<nat (e - lo + 1)]"
    using assms by auto
qed (simp_all add: sorted_filter [where f = "\<lambda>x. x", simplified])

lemma build_metrics_drop:
  assumes dates: "\<forall>i < length rows. r_date (rows ! i) = lo + int i"
    and len: "length rows = nat (e - lo + 1)"
    and lo: "lo \<le> s"
  shows "build_metrics pwin s e rows = drop (nat (s - lo)) (build_metrics pwin lo e rows)"
proof -
  define mk where "mk = (\<lambda>i.
      \<lparr>date = map r_date rows ! i,
       article_count = map r_count rows ! i,
       rolling_mean = map (\<lambda>r. coalesce (r_rolling_mean r) 0) rows ! i,
       rolling_std = map (\<lambda>r. coalesce (r_rolling_std r) 0) rows ! i,
       intensity = map (\<lambda>r. coalesce (r_intensity r) 0) rows ! i,
       sentiment_mean = map r_sentiment rows ! i,
       intensity_percentile =
         intensity_pcts pwin (map (\<lambda>r. coalesce (r_intensity r) 0) rows) ! i,
       sentiment_percentile = sentiment_pcts pwin (map r_sentiment rows) ! i\<rparr>)"
  have bm: "build_metrics pwin a e rows = map mk [nat (a - lo)..<nat (e - lo + 1)]"
    if a: "lo \<le> a" for a
  proof -
    have "build_metrics pwin a e rows =
        map mk (filter (\<lambda>i. a \<le> map r_date rows ! i \<and> map r_date rows ! i \<le> e)
                 [0..<length rows])"
      by (simp add: build_metrics_def Let_def mk_def)
    also have "filter (\<lambda>i. a \<le> map r_date rows ! i \<and> map r_date rows ! i \<le> e) [0..<length rows] =
        filter (\<lambda>i. a \<le> lo + int i \<and> lo + int i \<le> e) [0..<length rows]"
      using dates by (intro filter_cong) simp_all
    also have "\<dots> = [nat (a - lo)..<nat (e - lo + 1)]"
      unfolding len by (rule filter_upt_range [OF a])
    finally show ?thesis .
  qed
  have "drop (nat (s - lo)) (build_metrics pwin lo e rows) =
          map mk (drop (nat (s - lo)) [0..<nat (e - lo + 1)])"
    by (simp add: bm drop_map)
  also have "\<dots> = map mk [nat (s - lo)..<nat (e - lo + 1)]"
    by simp
  finally show ?thesis
    by (simp add: bm [OF lo])
qed

lemma metrics_query_dates:
  "\<forall>i < length (metrics_query articles win narrative lo hi eps).
     r_date (metrics_query articles win narrative lo hi eps ! i) = lo + int i"
  by (simp add: length_metrics_query nth_metrics_query rolling_row_fields date_request_series)

lemma full_baseline:
  assumes dates: "\<forall>k < length series. s_date (series ! k) = lo + int k"
    and i: "i \<le> length series" and W: "W \<le> i"
  shows "spec_baseline_n W series (lo + int i) = W"
  using i W by (simp add: spec_baseline_n_def prior_counts_frame [OF dates i] preceding_frame_def)

text \<open>
  Claim C7, as the code has it. A request that passes validation, has
  \<open>start_date \<le> end_date\<close> (the end date being a date, not after 9999-12-31) and whose
  lookback start \<open>start_date - max(W, P)\<close> is not before 0001-01-01 returns one row for each day from \<open>start_date\<close> to \<open>end_date\<close>, in ascending
  order, each with the number of distinct items of that day (0 for a day without items).
  The rows are those of the series computed from \<open>max(W, P)\<close> days before \<open>start_date\<close>,
  without its first \<open>max(W, P)\<close> rows: the lookback rows give every returned day a full
  baseline of \<open>W\<close> days and are not returned.
\<close>

theorem one_row_per_day:
  assumes valid: "query_valid window percentile_window epsilon"
    and range: "effective_start today start_date end_date \<le> effective_end today end_date"
    and lookback: "date_min \<le> effective_start today start_date end_date - max window percentile_window"
    and last: "effective_end today end_date \<le> date_max"
  shows "\<exists>ms. narrative_metrics articles today narrative start_date end_date window percentile_window epsilon = Inr ms \<and>
           map date ms = [effective_start today start_date end_date..effective_end today end_date] \<and>
           ms = drop (nat (max window percentile_window))
                  (build_metrics percentile_window
                     (effective_start today start_date end_date - max window percentile_window)
                     (effective_end today end_date)
                     (metrics_query articles (nat window) narrative
                        (effective_start today start_date end_date - max window percentile_window)
                        (effective_end today end_date) epsilon)) \<and>
           map date (build_metrics percentile_window
                     (effective_start today start_date end_date - max window percentile_window)
                     (effective_end today end_date)
                     (metrics_query articles (nat window) narrative
                        (effective_start today start_date end_date - max window percentile_window)
                        (effective_end today end_date) epsilon)) =
             [effective_start today start_date end_date - max window percentile_window..effective_end today end_date] \<and>
           (\<forall>m \<in> set ms.
              article_count m = int (card (items_on articles narrative (date m))) \<and>
              spec_baseline_n (nat window)
                (request_series articles narrative
                   (effective_start today start_date end_date - max window percentile_window)
                   (effective_end today end_date)) (date m) = nat window)"
proof -
  define s where "s = effective_start today start_date end_date"
  define e where "e = effective_end today end_date"
  define k where "k = max window percentile_window"
  define lo where "lo = s - k"
  define rows where "rows = metrics_query articles (nat window) narrative lo e epsilon"
  define series where "series = request_series articles narrative lo e"
  define ms where "ms = build_metrics percentile_window s e rows"
  from valid have k: "1 \<le> k" "window \<le> k" "1 \<le> window"
    by (auto simp: k_def query_valid_def)
  then have lo: "lo \<le> s" "lo \<le> lo"
    by (simp_all add: lo_def)
  have none: "start_date = None \<longrightarrow> date_min \<le> e - 365 \<and> e - 365 \<le> date_max"
    using lookback last k by (auto simp: s_def [symmetric] e_def [symmetric] k_def [symmetric]
      effective_start_def split: option.splits)
  have run: "narrative_metrics articles today narrative start_date end_date window percentile_window epsilon = Inr ms"
    using valid range lookback last k none
    by (simp add: narrative_metrics_Inr ms_def rows_def lo_def s_def [symmetric] e_def [symmetric]
          k_def [symmetric])
  have dates: "map r_date rows = [lo..e]"
    by (simp add: rows_def map_date_metrics_query)
  have rdates: "\<forall>i < length rows. r_date (rows ! i) = lo + int i"
    unfolding rows_def by (rule metrics_query_dates)
  have rlen: "length rows = nat (e - lo + 1)"
    by (simp add: rows_def length_metrics_query)
  have out: "map date ms = [s..e]"
    by (simp add: ms_def map_date_build_metrics dates filter_upto_sub [OF lo(1)])
  have full: "map date (build_metrics percentile_window lo e rows) = [lo..e]"
    by (simp add: map_date_build_metrics dates filter_upto_sub [OF lo(2)])
  have "nat (s - lo) = nat k"
    by (simp add: lo_def)
  with build_metrics_drop [OF rdates rlen lo(1), of percentile_window]
  have dropped: "ms = drop (nat k) (build_metrics percentile_window lo e rows)"
    by (simp add: ms_def)
  have each: "article_count m = int (card (items_on articles narrative (date m))) \<and>
      spec_baseline_n (nat window) series (date m) = nat window"
    if m: "m \<in> set ms" for m
  proof -
    from returned_row [OF run m] obtain i where i: "i < nat (e - lo + 1)"
      and d: "date m = lo + int i" "s \<le> date m" "date m \<le> e"
      and c: "article_count m = s_count (request_series articles narrative lo e ! i)"
      unfolding s_def e_def lo_def k_def by blast
    have "lo \<le> date m"
      using lo d by simp
    then have count: "article_count m = int (card (items_on articles narrative (date m)))"
      using d by (simp add: c count_request_series [OF i] count_items_on)
    have sdates: "\<forall>j < length series. s_date (series ! j) = lo + int j"
      unfolding series_def by (rule request_series_dates)
    have il: "i \<le> length series"
      using i by (simp add: series_def length_request_series)
    have "nat window \<le> i"
      using d k by (simp add: lo_def)
    from full_baseline [OF sdates il this] count show ?thesis
      by (simp add: d)
  qed
  from run out dropped full each show ?thesis
    unfolding rows_def series_def lo_def k_def s_def e_def by blast
qed

theorem one_row_per_day_witness:
  "query_valid 1 2 (1 / 4) \<and> effective_start 100 (Some 10) (Some 12) \<le> effective_end 100 (Some 12) \<and>
   date_min \<le> effective_start 100 (Some 10) (Some 12) - max 1 2 \<and>
   effective_end 100 (Some 12) \<le> date_max \<and>
   (\<exists>ms. narrative_metrics example_articles 100 ''rates'' (Some 10) (Some 12) 1 2 (1 / 4) = Inr ms \<and>
      map date ms = [10, 11, 12] \<and>
      ms = drop 2 (build_metrics 2 8 12 (metrics_query example_articles 1 ''rates'' 8 12 (1 / 4))) \<and>
      map date (build_metrics 2 8 12 (metrics_query example_articles 1 ''rates'' 8 12 (1 / 4)))
        = [8, 9, 10, 11, 12])"
proof -
  have v: "query_valid 1 2 (1 / 4)"
    by (simp add: query_valid_def)
  have r: "effective_start 100 (Some 10) (Some 12) \<le> effective_end 100 (Some 12)"
    by (simp add: effective_start_def effective_end_def)
  have l: "date_min \<le> effective_start 100 (Some 10) (Some 12) - max 1 2"
    by (simp add: effective_start_def date_min_def)
  have u: "effective_end 100 (Some 12) \<le> date_max"
    by (simp add: effective_end_def date_max_def)
  from one_row_per_day [OF v r l u, of example_articles "''rates''"] v r l u show ?thesis
    by (auto simp: effective_start_def effective_end_def)
qed

theorem one_row_per_day_counterexample:
  "query_valid 60 365 (1 / 4) \<and> effective_start 100 (Some 1) (Some 1) \<le> effective_end 100 (Some 1) \<and>
   date_min \<le> effective_start 100 (Some 1) (Some 1) \<and>
   narrative_metrics example_articles 100 ''rates'' (Some 1) (Some 1) 60 365 (1 / 4) = Inl OverflowError"
  by (simp add: query_valid_def effective_start_def effective_end_def date_min_def date_max_def
        narrative_metrics_def narrative_metrics_body_def date_sub_def Let_def)

end
